theory Spec2Isabelle
  imports Main "HOL-Library.Sublist"
begin

section \<open>Characters and strings\<close>

text \<open>
  Source texts and documentation are Python \<^verbatim>\<open>str\<close> values. They are modelled as
  \<^typ>\<open>string\<close>, a \<^typ>\<open>char\<close> standing for the code point of the same number
  (0 to 255). The character classes below are the ones Python's \<^verbatim>\<open>re\<close> module and
  \<^verbatim>\<open>str.strip\<close>/\<^verbatim>\<open>str.split\<close> use on that range.
\<close>

definition is_space :: "char \<Rightarrow> bool" where
  \<comment> \<open>\<^verbatim>\<open>\s\<close> and \<^verbatim>\<open>str.isspace\<close>: TAB..CR, FS..US, space, NEL, NBSP\<close>
  "is_space c = (let n = (of_char c :: nat) in
     (9 \<le> n \<and> n \<le> 13) \<or> (28 \<le> n \<and> n \<le> 32) \<or> n = 133 \<or> n = 160)"

definition is_word :: "char \<Rightarrow> bool" where
  \<comment> \<open>\<^verbatim>\<open>\w\<close>: alphanumeric code points and the underscore\<close>
  "is_word c = (let n = (of_char c :: nat) in
     (48 \<le> n \<and> n \<le> 57) \<or> (65 \<le> n \<and> n \<le> 90) \<or> (97 \<le> n \<and> n \<le> 122) \<or> n = 95 \<or>
     n = 170 \<or> n = 178 \<or> n = 179 \<or> n = 181 \<or> n = 185 \<or> n = 186 \<or>
     (188 \<le> n \<and> n \<le> 190) \<or> (192 \<le> n \<and> n \<le> 214) \<or> (216 \<le> n \<and> n \<le> 246) \<or>
     (248 \<le> n \<and> n \<le> 255))"

definition to_lower :: "char \<Rightarrow> char" where
  "to_lower c = (let n = (of_char c :: nat) in
     if (65 \<le> n \<and> n \<le> 90) \<or> (192 \<le> n \<and> n \<le> 222 \<and> n \<noteq> 215)
     then char_of (n + 32) else c)"

definition char_eq :: "bool \<Rightarrow> char \<Rightarrow> char \<Rightarrow> bool" where
  \<comment> \<open>a literal pattern character against an input character; the flag is \<^verbatim>\<open>re.IGNORECASE\<close>\<close>
  "char_eq ic c x = (if ic then to_lower c = to_lower x else c = x)"

definition py_strip :: "string \<Rightarrow> string" where
  \<comment> \<open>\<^verbatim>\<open>s.strip()\<close>\<close>
  "py_strip s = rev (dropWhile is_space (rev (dropWhile is_space s)))"

function py_split :: "string \<Rightarrow> string list" where
  \<comment> \<open>\<^verbatim>\<open>s.split()\<close>: the maximal runs of non-whitespace characters\<close>
  "py_split s =
     (case dropWhile is_space s of
        [] \<Rightarrow> []
      | c # cs \<Rightarrow> (c # takeWhile (\<lambda>x. \<not> is_space x) cs) #
                  py_split (dropWhile (\<lambda>x. \<not> is_space x) cs))"
  by pat_completeness auto
termination
proof (relation "measure length", goal_cases)
  case 1
  show ?case by simp
next
  case (2 s c cs)
  have "length (dropWhile (\<lambda>x. \<not> is_space x) cs) \<le> length cs"
    by (rule length_dropWhile_le)
  moreover have "length (dropWhile is_space s) \<le> length s"
    by (rule length_dropWhile_le)
  ultimately show ?case using 2 by simp
qed

declare py_split.simps [simp del]

fun str_contains :: "string \<Rightarrow> string \<Rightarrow> bool" where
  \<comment> \<open>\<^verbatim>\<open>sub in s\<close>\<close>
  "str_contains sub [] = (sub = [])"
| "str_contains sub (c # cs) = (prefix sub (c # cs) \<or> str_contains sub cs)"

function str_count :: "string \<Rightarrow> string \<Rightarrow> nat" where
  \<comment> \<open>\<^verbatim>\<open>s.count(sub)\<close> for a non-empty \<^verbatim>\<open>sub\<close>: occurrences that do not overlap, from the left\<close>
  "str_count sub s =
     (if sub = [] \<or> s = [] then 0
      else if prefix sub s then Suc (str_count sub (drop (length sub) s))
      else str_count sub (tl s))"
  by pat_completeness auto
termination
  by (relation "measure (\<lambda>(sub, s). length s)") auto

declare str_count.simps [simp del]

section \<open>Regular expressions as Python's \<^verbatim>\<open>re\<close> runs them\<close>

text \<open>
  The patterns of the source are written as terms of \<open>regex\<close>. Repetition is only
  ever applied to a character class in the source, so \<open>Rep\<close> carries a class, the
  least number of repetitions, and whether it is greedy (\<^verbatim>\<open>*\<close>, \<^verbatim>\<open>+\<close>) or lazy
  (\<^verbatim>\<open>*?\<close>). The matcher returns every way the pattern can match at the given place,
  in the order in which a backtracking matcher tries them: the match Python reports is
  the first one.
\<close>

datatype cclass = Space | WordHyphen | AnyChar | NotNewline

fun in_class :: "cclass \<Rightarrow> char \<Rightarrow> bool" where
  "in_class Space c = is_space c"             \<comment> \<open>\<^verbatim>\<open>\s\<close>\<close>
| "in_class WordHyphen c = (is_word c \<or> c = CHR ''-'')"   \<comment> \<open>\<^verbatim>\<open>[\w-]\<close>\<close>
| "in_class AnyChar c = True"                 \<comment> \<open>\<^verbatim>\<open>[\s\S]\<close>\<close>
| "in_class NotNewline c = (c \<noteq> CHR 0x0A)"    \<comment> \<open>\<^verbatim>\<open>.\<close> without DOTALL\<close>

datatype greed = Greedy | Lazy

datatype regex =
    Eps
  | Chr char
  | Rep cclass nat greed
  | Seq regex regex
  | Alt regex regex
  | Grp nat regex
  | Opt regex
  | Bol
  | Eol

fun lit :: "string \<Rightarrow> regex" where
  "lit [] = Eps"
| "lit (c # cs) = Seq (Chr c) (lit cs)"

type_synonym groups = "nat \<rightharpoonup> string"

text \<open>A matcher state: the offset reached in the whole text, the text still to be
  read, and the groups captured so far.\<close>

type_synonym mstate = "nat \<times> string \<times> groups"

fun rmatch :: "bool \<Rightarrow> regex \<Rightarrow> mstate \<Rightarrow> mstate list" where
  "rmatch ic Eps s = [s]"
| "rmatch ic (Chr c) (p, r, g) =
     (case r of [] \<Rightarrow> [] | x # xs \<Rightarrow> if char_eq ic c x then [(Suc p, xs, g)] else [])"
| "rmatch ic (Rep cl mn gr) (p, r, g) =
     (let ks = [mn ..< Suc (length (takeWhile (in_class cl) r))]
      in map (\<lambda>k. (p + k, drop k r, g)) (case gr of Greedy \<Rightarrow> rev ks | Lazy \<Rightarrow> ks))"
| "rmatch ic (Seq a b) s = concat (map (rmatch ic b) (rmatch ic a s))"
| "rmatch ic (Alt a b) s = rmatch ic a s @ rmatch ic b s"
| "rmatch ic (Grp n a) (p, r, g) =
     map (\<lambda>(p', r', g'). (p', r', g'(n \<mapsto> take (p' - p) r))) (rmatch ic a (p, r, g))"
| "rmatch ic (Opt a) s = rmatch ic a s @ [s]"
| "rmatch ic Bol (p, r, g) = (if p = 0 then [(p, r, g)] else [])"
| "rmatch ic Eol (p, r, g) = (if r = [] \<or> r = [CHR 0x0A] then [(p, r, g)] else [])"

text \<open>A reported match: where it starts, where it ends, and its groups.\<close>

type_synonym rematch = "nat \<times> nat \<times> groups"

definition group :: "groups \<Rightarrow> nat \<Rightarrow> string" where
  \<comment> \<open>\<^verbatim>\<open>match.group(n)\<close>; every group read by the source takes part in every match
      of its pattern\<close>
  "group g n = (case g n of Some u \<Rightarrow> u | None \<Rightarrow> [])"

fun search_from :: "bool \<Rightarrow> regex \<Rightarrow> nat \<Rightarrow> string \<Rightarrow> rematch option" where
  "search_from ic re p [] =
     (case rmatch ic re (p, [], Map.empty) of [] \<Rightarrow> None | (e, _, g) # _ \<Rightarrow> Some (p, e, g))"
| "search_from ic re p (c # cs) =
     (case rmatch ic re (p, c # cs, Map.empty) of
        [] \<Rightarrow> search_from ic re (Suc p) cs
      | (e, _, g) # _ \<Rightarrow> Some (p, e, g))"

definition re_search :: "bool \<Rightarrow> regex \<Rightarrow> string \<Rightarrow> rematch option" where
  \<comment> \<open>\<^verbatim>\<open>re.search(pattern, s, flags)\<close>: the first match at the leftmost place that has one\<close>
  "re_search ic re s = search_from ic re 0 s"

function finditer_from :: "bool \<Rightarrow> regex \<Rightarrow> nat \<Rightarrow> string \<Rightarrow> rematch list" where
  \<comment> \<open>scanning resumes after a match that consumed text, and one character further
      after an empty one (no pattern of the source matches the empty text)\<close>
  "finditer_from ic re p s =
     (case rmatch ic re (p, s, Map.empty) of
        [] \<Rightarrow> (case s of [] \<Rightarrow> [] | c # cs \<Rightarrow> finditer_from ic re (Suc p) cs)
      | (e, r', g) # _ \<Rightarrow>
          (p, e, g) #
          (if length r' < length s then finditer_from ic re e r'
           else (case s of [] \<Rightarrow> [] | c # cs \<Rightarrow> finditer_from ic re (Suc p) cs)))"
  by pat_completeness auto
termination
  by (relation "measure (\<lambda>(ic, re, p, s). length s)") auto

declare finditer_from.simps [simp del]

definition re_finditer :: "bool \<Rightarrow> regex \<Rightarrow> string \<Rightarrow> rematch list" where
  \<comment> \<open>\<^verbatim>\<open>re.finditer(pattern, s, flags)\<close>\<close>
  "re_finditer ic re s = finditer_from ic re 0 s"

function sub_from ::
  "bool \<Rightarrow> regex \<Rightarrow> (groups \<Rightarrow> 's \<Rightarrow> string \<times> 's) \<Rightarrow> nat \<Rightarrow> string \<Rightarrow> 's \<Rightarrow> string \<times> 's" where
  \<comment> \<open>the scan of \<open>finditer_from\<close>; text outside the matches is copied, each match is
      replaced by what the callback returns, and the callback's variables (its
      \<^verbatim>\<open>nonlocal\<close> flags) are threaded from match to match\<close>
  "sub_from ic re f p s st =
     (case rmatch ic re (p, s, Map.empty) of
        [] \<Rightarrow> (case s of
                 [] \<Rightarrow> ([], st)
               | c # cs \<Rightarrow> apfst ((#) c) (sub_from ic re f (Suc p) cs st))
      | (e, r', g) # _ \<Rightarrow>
          (if length r' < length s
           then apfst ((@) (fst (f g st))) (sub_from ic re f e r' (snd (f g st)))
           else (case s of
                   [] \<Rightarrow> f g st
                 | c # cs \<Rightarrow> apfst ((@) (fst (f g st) @ [c]))
                               (sub_from ic re f (Suc p) cs (snd (f g st))))))"
  by pat_completeness auto
termination
  by (relation "measure (\<lambda>(ic, re, f, p, s, st). length s)") auto

declare sub_from.simps [simp del]

definition re_sub ::
  "bool \<Rightarrow> regex \<Rightarrow> (groups \<Rightarrow> 's \<Rightarrow> string \<times> 's) \<Rightarrow> string \<Rightarrow> 's \<Rightarrow> string \<times> 's" where
  \<comment> \<open>\<^verbatim>\<open>re.sub(pattern, callback, s)\<close>, with the callback's variables before and after\<close>
  "re_sub ic re f s st = sub_from ic re f 0 s st"

section \<open>The heuristic pre-parse\<close>

definition program_id_pattern :: regex where
  \<comment> \<open>\<^verbatim>\<open>PROGRAM-ID\s*\.\s*([\w-]+)\<close>\<close>
  "program_id_pattern =
     Seq (lit ''PROGRAM-ID'')
       (Seq (Rep Space 0 Greedy)
         (Seq (Chr CHR ''.'')
           (Seq (Rep Space 0 Greedy) (Grp 1 (Rep WordHyphen 1 Greedy)))))"

definition extract_program_id :: "string \<Rightarrow> string" where
  "extract_program_id cobol_code =
     (case re_search True program_id_pattern cobol_code of
        Some (_, _, g) \<Rightarrow> py_strip (group g 1)
      | None \<Rightarrow> ''Unknown'')"

definition division_pattern :: regex where
  \<comment> \<open>\<^verbatim>\<open>([\w-]+)\s+DIVISION\<close>\<close>
  "division_pattern =
     Seq (Grp 1 (Rep WordHyphen 1 Greedy)) (Seq (Rep Space 1 Greedy) (lit ''DIVISION''))"

definition identify_divisions :: "string \<Rightarrow> string list" where
  "identify_divisions cobol_code =
     map (\<lambda>(_, _, g). py_strip (group g 1)) (re_finditer True division_pattern cobol_code)"

subsection \<open>What the pre-parse is to find\<close>

text \<open>
  The program identifier follows a \<^verbatim>\<open>PROGRAM-ID\<close> marker (in any letter case), optional
  white space, a full stop and optional white space. A division name is followed by white
  space and the word \<^verbatim>\<open>DIVISION\<close> (in any letter case); a list of names is in order of
  occurrence when each name is found after the end of the match before it.
\<close>

definition program_id_occurs :: "string \<Rightarrow> string \<Rightarrow> bool" where
  "program_id_occurs code pid =
     (\<exists>pre kw ws1 ws2 post.
        code = pre @ kw @ ws1 @ ''.'' @ ws2 @ pid @ post
        \<and> map to_lower kw = map to_lower ''PROGRAM-ID''
        \<and> (\<forall>c\<in>set ws1. is_space c) \<and> (\<forall>c\<in>set ws2. is_space c)
        \<and> pid \<noteq> [] \<and> (\<forall>c\<in>set pid. is_word c \<or> c = CHR ''-''))"

inductive division_names_in_order :: "string \<Rightarrow> string list \<Rightarrow> bool" where
  no_more: "division_names_in_order code []"
| next_name: "code = pre @ name @ ws @ kw @ rest \<Longrightarrow>
      name \<noteq> [] \<Longrightarrow> \<forall>c\<in>set name. is_word c \<or> c = CHR ''-'' \<Longrightarrow>
      ws \<noteq> [] \<Longrightarrow> \<forall>c\<in>set ws. is_space c \<Longrightarrow>
      map to_lower kw = map to_lower ''DIVISION'' \<Longrightarrow>
      division_names_in_order rest names \<Longrightarrow>
      division_names_in_order code (name # names)"

section \<open>Thinking-process separation\<close>

definition doc_title_pattern :: regex where
  \<comment> \<open>\<^verbatim>\<open>(^|\n)#\s+(.*?Documentation|Documentation for.*?)(\n|$)\<close>\<close>
  "doc_title_pattern =
     Seq (Grp 1 (Alt Bol (Chr CHR 0x0A)))
       (Seq (Chr CHR ''#'')
         (Seq (Rep Space 1 Greedy)
           (Seq (Grp 2 (Alt (Seq (Rep NotNewline 0 Lazy) (lit ''Documentation''))
                            (Seq (lit ''Documentation for'') (Rep NotNewline 0 Lazy))))
                (Grp 3 (Alt (Chr CHR 0x0A) Eol)))))"

definition first_heading_pattern :: regex where
  \<comment> \<open>\<^verbatim>\<open>(^|\n)#\s+\<close>\<close>
  "first_heading_pattern =
     Seq (Grp 1 (Alt Bol (Chr CHR 0x0A))) (Seq (Chr CHR ''#'') (Rep Space 1 Greedy))"

definition separate_thinking_process :: "string \<Rightarrow> string" where
  "separate_thinking_process documentation =
     (case re_search True doc_title_pattern documentation of
        Some (title_pos, _, _) \<Rightarrow>
          (let thinking_process = py_strip (take title_pos documentation);
               main_documentation = py_strip (drop title_pos documentation)
           in if thinking_process \<noteq> []
              then main_documentation @ ''\<newline>\<newline># Thinking Process\<newline>\<newline>'' @ thinking_process
              else main_documentation)
      | None \<Rightarrow>
          (case re_search False first_heading_pattern documentation of
             Some (heading_pos, _, _) \<Rightarrow>
               (let thinking_process = py_strip (take heading_pos documentation);
                    main_documentation = py_strip (drop heading_pos documentation)
                in if thinking_process \<noteq> []
                   then main_documentation @ ''\<newline>\<newline># Thinking Process\<newline>\<newline>'' @ thinking_process
                   else main_documentation)
           | None \<Rightarrow> documentation))"

text \<open>
  A top-level heading stands at an offset when the text there reads \<^verbatim>\<open>#\<close> and a white
  space character, at the very start of the text or after a newline (the newline is
  then the character at the offset). The heading the separation splits at is the start
  of the first title match or, without one, of the first heading match.
\<close>

fun starts_heading :: "string \<Rightarrow> bool" where
  "starts_heading (a # c # _) = (a = CHR ''#'' \<and> is_space c)"
| "starts_heading _ = False"

definition top_heading_at :: "string \<Rightarrow> nat \<Rightarrow> bool" where
  "top_heading_at doc i =
     ((i = 0 \<and> starts_heading doc)
      \<or> (case drop i doc of c # t \<Rightarrow> c = CHR 0x0A \<and> starts_heading t | [] \<Rightarrow> False))"

definition has_top_heading :: "string \<Rightarrow> bool" where
  "has_top_heading doc = list_ex (top_heading_at doc) [0 ..< Suc (length doc)]"

definition split_heading :: "string \<Rightarrow> nat option" where
  "split_heading doc =
     (case re_search True doc_title_pattern doc of
        Some (title_pos, _, _) \<Rightarrow> Some title_pos
      | None \<Rightarrow> (case re_search False first_heading_pattern doc of
                    Some (heading_pos, _, _) \<Rightarrow> Some heading_pos
                  | None \<Rightarrow> None))"

section \<open>Values, errors and the preference store\<close>

text \<open>
  Structured data, preference values and provider payloads are Python objects of the
  kinds \<^verbatim>\<open>json.loads\<close> produces. A dictionary is an association list with string
  keys (no key occurs twice). Numbers carry an integer; a JSON float behaves like one in
  every operation modelled here.
\<close>

datatype pyval =
    PNone
  | PBool bool
  | PNum int
  | PStr string
  | PList "pyval list"
  | PDict "(string \<times> pyval) list"

type_synonym pydict = "(string \<times> pyval) list"

datatype py_error =
    TypeError
  | AttributeError
  | ProviderError string   \<comment> \<open>an exception raised inside an external collaborator\<close>

text \<open>\<^verbatim>\<open>self.user_preferences\<close>, a dictionary. The two accessors work for any kind
  of key and value.\<close>

definition set_user_preference :: "('k \<rightharpoonup> 'v) \<Rightarrow> 'k \<Rightarrow> 'v \<Rightarrow> ('k \<rightharpoonup> 'v)" where
  "set_user_preference user_preferences key val = user_preferences(key \<mapsto> val)"

definition get_user_preference :: "('k \<rightharpoonup> 'v) \<Rightarrow> 'k \<Rightarrow> 'v \<Rightarrow> 'v" where
  "get_user_preference user_preferences key dflt =
     (case user_preferences key of Some v \<Rightarrow> v | None \<Rightarrow> dflt)"

section \<open>The collaborators outside the sources\<close>

text \<open>
  The language-model providers, the diagram validator, the enrichment client, the
  tabbed-view transform, the JSON decoder and the process environment are not part of
  the sources. They are the fields of \<open>world\<close>; a call that may raise returns a sum.
  A prompt is represented by the values the source puts into its fixed text.
  The validator \<^verbatim>\<open>validate_mermaid_syntax(code)\<close> returns
  \<^verbatim>\<open>(is_valid, corrected_code, message)\<close>. Logging, monitoring and tracing calls
  return normally and do not touch the values computed here; they are left out.
\<close>

datatype llm_request =
    AnalysisPrompt pydict string string
      \<comment> \<open>parsed structure, COBOL code, custom instructions\<close>
  | DocPrompt string pydict "pyval option"
      \<comment> \<open>custom instructions, structured data, the enrichment explanation if any\<close>
  | FallbackDocPrompt string llm_request
      \<comment> \<open>custom instructions and the documentation prompt they are put in front of\<close>
  | EnhancePrompt string
      \<comment> \<open>the documentation to enhance\<close>

record world =
  providers :: "string list"                    \<comment> \<open>\<^verbatim>\<open>llm_selector.get_providers()\<close>\<close>
  groq_api_key :: "string option"               \<comment> \<open>\<^verbatim>\<open>os.environ.get("GROQ_API_KEY")\<close>\<close>
  generate_text :: "llm_request \<Rightarrow> pyval \<Rightarrow> pyval \<Rightarrow> py_error + string"
      \<comment> \<open>\<^verbatim>\<open>llm_selector.generate_text(prompt, provider, model, ...)\<close>\<close>
  generate_with_groq :: "llm_request \<Rightarrow> pyval \<Rightarrow> py_error + string"
      \<comment> \<open>\<^verbatim>\<open>generate_with_groq(prompt, model, ...)\<close>\<close>
  analyze_cobol_with_groq :: "string \<Rightarrow> pyval \<Rightarrow> py_error + pyval"
  json_loads :: "string \<Rightarrow> pyval option"    \<comment> \<open>\<open>None\<close>: the decoder raises\<close>
  validate_mermaid_syntax :: "string \<Rightarrow> bool \<times> string \<times> string"
  enrich_cobol_documentation :: "pydict \<Rightarrow> pyval \<Rightarrow> py_error + pyval"
  enhance_markdown_with_tabs :: "string \<Rightarrow> py_error + string"
  py_str :: "pyval \<Rightarrow> string"               \<comment> \<open>\<^verbatim>\<open>str(v)\<close>, as an f-string formats a value\<close>

type_synonym preferences = "string \<rightharpoonup> pyval"

fun truthy :: "pyval \<Rightarrow> bool" where
  \<comment> \<open>the truth value Python gives an object in \<^verbatim>\<open>if\<close>, \<^verbatim>\<open>and\<close>, \<^verbatim>\<open>or\<close>, \<^verbatim>\<open>not\<close>\<close>
  "truthy PNone = False"
| "truthy (PBool b) = b"
| "truthy (PNum n) = (n \<noteq> 0)"
| "truthy (PStr s) = (s \<noteq> [])"
| "truthy (PList xs) = (xs \<noteq> [])"
| "truthy (PDict kvs) = (kvs \<noteq> [])"

definition has_api_key :: "world \<Rightarrow> bool" where
  \<comment> \<open>\<^verbatim>\<open>os.environ.get("GROQ_API_KEY")\<close> as a condition\<close>
  "has_api_key w = (case groq_api_key w of Some k \<Rightarrow> k \<noteq> [] | None \<Rightarrow> False)"

definition llm_model :: pyval where
  \<comment> \<open>\<^verbatim>\<open>self.llm_model\<close>: read in the constructor, when no preference is set yet\<close>
  "llm_model = PStr ''llama-3.3-70b-versatile''"

section \<open>Diagram validation and enhancement\<close>

definition mermaid_marker :: string where
  "mermaid_marker = ''```mermaid''"

definition mermaid_pattern :: regex where
  \<comment> \<open>\<^verbatim>\<open>```mermaid\s*([\s\S]*?)\s*```\<close>\<close>
  "mermaid_pattern =
     Seq (lit ''```mermaid'')
       (Seq (Rep Space 0 Greedy)
         (Seq (Grp 1 (Rep AnyChar 0 Lazy))
           (Seq (Rep Space 0 Greedy) (lit ''```''))))"

definition fence :: "string \<Rightarrow> string" where
  \<comment> \<open>\<^verbatim>\<open>f"```mermaid\n{code}\n```"\<close>\<close>
  "fence code = ''```mermaid\<newline>'' @ code @ ''\<newline>```''"

definition default_diagram :: string where
  "default_diagram = ''flowchart TD\<newline>    Empty[Empty Diagram] --> Placeholder[Placeholder]''"

definition validate_diagram :: "world \<Rightarrow> groups \<Rightarrow> bool \<Rightarrow> string \<times> bool" where
  \<comment> \<open>the callback of the first pass; the flag is \<^verbatim>\<open>has_valid_diagrams\<close>\<close>
  "validate_diagram w g has_valid_diagrams =
     (let mermaid_code = py_strip (group g 1)
      in if mermaid_code = [] then (fence default_diagram, has_valid_diagrams)
         else (case validate_mermaid_syntax w mermaid_code of
                 (is_valid, corrected_code, message) \<Rightarrow> (fence corrected_code, True)))"

definition check_and_fix_diagram :: "world \<Rightarrow> groups \<Rightarrow> bool \<Rightarrow> string \<times> bool" where
  \<comment> \<open>the callback of the correction loop; the flag is \<^verbatim>\<open>has_issues\<close>\<close>
  "check_and_fix_diagram w g has_issues =
     (let mermaid_code = py_strip (group g 1)
      in if mermaid_code = [] then (fence default_diagram, True)
         else (case validate_mermaid_syntax w mermaid_code of
                 (is_valid, corrected_code, message) \<Rightarrow>
                   (fence corrected_code, has_issues \<or> corrected_code \<noteq> mermaid_code)))"

definition max_attempts :: nat where
  "max_attempts = 2"

function correction_loop :: "world \<Rightarrow> bool \<Rightarrow> nat \<Rightarrow> string \<Rightarrow> string" where
  \<comment> \<open>\<^verbatim>\<open>while has_issues and attempts < max_attempts\<close>; each round starts with
      \<^verbatim>\<open>has_issues = False\<close>\<close>
  "correction_loop w has_issues attempts enhanced_documentation =
     (if has_issues \<and> attempts < max_attempts
      then (case re_sub False mermaid_pattern (check_and_fix_diagram w) enhanced_documentation False of
              (enhanced_documentation', has_issues') \<Rightarrow>
                correction_loop w has_issues' (attempts + 1) enhanced_documentation')
      else enhanced_documentation)"
  by pat_completeness auto
termination
  by (relation "measure (\<lambda>(w, has_issues, attempts, e). max_attempts - attempts)") auto

declare correction_loop.simps [simp del]

definition basic_flowchart :: string where
  "basic_flowchart = ''```mermaid\<newline>flowchart TD\<newline>    Start([Start Program]) --> Init[Initialize Variables]\<newline>    Init --> Process[Process Data]\<newline>    Process --> Decision{Decision Point}\<newline>    Decision -->|Yes| Success[Success Path]\<newline>    Decision -->|No| Failure[Failure Path]\<newline>    Success --> End([End Program])\<newline>    Failure --> End\<newline>```''"

definition validate_existing :: "world \<Rightarrow> string \<Rightarrow> string \<times> bool" where
  \<comment> \<open>the first pass: documentation and \<^verbatim>\<open>has_valid_diagrams\<close> after it\<close>
  "validate_existing w documentation =
     (if str_contains mermaid_marker documentation
      then re_sub False mermaid_pattern (validate_diagram w) documentation False
      else (documentation, False))"

definition add_fallback_diagram :: "string \<times> bool \<Rightarrow> string" where
  \<comment> \<open>\<^verbatim>\<open>if not has_valid_diagrams and "```mermaid" not in documentation\<close>\<close>
  "add_fallback_diagram dv =
     (case dv of (documentation, has_valid_diagrams) \<Rightarrow>
        if \<not> has_valid_diagrams \<and> \<not> str_contains mermaid_marker documentation
        then documentation @ ''\<newline>\<newline>## Program Flow Diagram\<newline>\<newline>'' @ basic_flowchart @ ''\<newline>''
        else documentation)"

definition enhancement_pass :: "world \<Rightarrow> preferences \<Rightarrow> string \<Rightarrow> string" where
  \<comment> \<open>the optional second pass; an exception of the provider is caught and the
      documentation kept\<close>
  "enhancement_pass w prefs documentation =
     (let provider_preference = get_user_preference prefs ''llm_provider'' (PStr ''groq'')
      in if truthy (get_user_preference prefs ''enhanced_diagrams'' (PBool True))
            \<and> truthy provider_preference
         then (case generate_with_groq w (EnhancePrompt documentation) llm_model of
                 Inl api_error \<Rightarrow> documentation
               | Inr enhanced_documentation \<Rightarrow>
                   if enhanced_documentation \<noteq> []
                   then (let enhanced_documentation =
                               correction_loop w True 0 enhanced_documentation;
                             original_count = str_count mermaid_marker documentation;
                             enhanced_count = str_count mermaid_marker enhanced_documentation
                         in if enhanced_count > 0 then enhanced_documentation
                            else documentation)
                   else documentation)
         else documentation)"

definition enhance_with_diagrams :: "world \<Rightarrow> preferences \<Rightarrow> string \<Rightarrow> pydict \<Rightarrow> string" where
  "enhance_with_diagrams w prefs documentation structured_data =
     enhancement_pass w prefs (add_fallback_diagram (validate_existing w documentation))"

section \<open>Quality evaluation\<close>

definition bind_err :: "py_error + 'a \<Rightarrow> ('a \<Rightarrow> py_error + 'b) \<Rightarrow> py_error + 'b" where
  \<comment> \<open>sequencing: an exception raised by the first step ends the block\<close>
  "bind_err m f = (case m of Inl e \<Rightarrow> Inl e | Inr x \<Rightarrow> f x)"

fun py_len :: "pyval \<Rightarrow> py_error + nat" where
  \<comment> \<open>\<^verbatim>\<open>len(v)\<close>\<close>
  "py_len (PStr s) = Inr (length s)"
| "py_len (PList xs) = Inr (length xs)"
| "py_len (PDict kvs) = Inr (length kvs)"
| "py_len _ = Inl TypeError"

definition dict_get :: "pydict \<Rightarrow> string \<Rightarrow> pyval \<Rightarrow> pyval" where
  \<comment> \<open>\<^verbatim>\<open>d.get(key, default)\<close>\<close>
  "dict_get d key dflt = (case map_of d key of Some v \<Rightarrow> v | None \<Rightarrow> dflt)"

definition has_key :: "pydict \<Rightarrow> string \<Rightarrow> bool" where
  \<comment> \<open>\<^verbatim>\<open>key in d\<close>\<close>
  "has_key d key = (map_of d key \<noteq> None)"

record quality =
  quality_score :: nat
  quality_level :: string
  quality_notes :: "string list"

definition tally :: "bool \<Rightarrow> string \<Rightarrow> nat \<times> string list \<Rightarrow> nat \<times> string list" where
  \<comment> \<open>one \<^verbatim>\<open>if ...: quality_score += 1 else: quality_notes.append(note)\<close>\<close>
  "tally ok note st = (if ok then (fst st + 1, snd st) else (fst st, snd st @ [note]))"

definition level_of :: "nat \<Rightarrow> string" where
  \<comment> \<open>\<^verbatim>\<open>"low" if quality_score < 2 else "medium" if quality_score < 4 else "high"\<close>\<close>
  "level_of score = (if score < 2 then ''low'' else if score < 4 then ''medium'' else ''high'')"

definition key_longer_than :: "pydict \<Rightarrow> string \<Rightarrow> pyval \<Rightarrow> nat \<Rightarrow> py_error + bool" where
  \<comment> \<open>\<^verbatim>\<open>key in d and len(d.get(key, default)) > n\<close>; \<^verbatim>\<open>and\<close> does not evaluate
      its right side when the key is absent\<close>
  "key_longer_than d key dflt n =
     (if has_key d key then bind_err (py_len (dict_get d key dflt)) (\<lambda>l. Inr (l > n))
      else Inr False)"

definition evaluate_analysis_quality :: "pydict \<Rightarrow> py_error + quality" where
  "evaluate_analysis_quality structured_data =
     (let st = tally (has_key structured_data ''program_id''
                       \<and> dict_get structured_data ''program_id'' PNone \<noteq> PStr ''Unknown'')
                 ''Missing program ID'' (0, [])
      in bind_err (key_longer_than structured_data ''description'' (PStr []) 20) (\<lambda>c.
         let st = tally c ''Description missing or too short'' st
      in bind_err (key_longer_than structured_data ''divisions'' (PDict []) 0) (\<lambda>c.
         let st = tally c ''No divisions identified'' st
      in bind_err (key_longer_than structured_data ''variables'' (PDict []) 0) (\<lambda>c.
         let st = tally c ''No variables identified'' st
      in bind_err (key_longer_than structured_data ''flow_diagram'' (PStr []) 50) (\<lambda>c.
         let st = tally c ''Flow diagram missing or incomplete'' st
      in Inr \<lparr>quality_score = fst st, quality_level = level_of (fst st),
               quality_notes = snd st\<rparr>)))))"

definition evaluate_documentation_quality :: "string \<Rightarrow> quality" where
  "evaluate_documentation_quality documentation =
     (let st = tally (length documentation > 1000) ''Documentation is too short'' (0, []);
          st = tally (str_count ''#'' documentation > 3) ''Too few section headings'' st;
          st = tally (str_count ''```'' documentation \<ge> 2) ''No code examples included'' st;
          st = tally (str_contains ''```mermaid'' documentation) ''No diagrams included'' st;
          st = tally (length (py_split documentation) > 300) ''Insufficient explanation text'' st
      in \<lparr>quality_score = fst st, quality_level = level_of (fst st), quality_notes = snd st\<rparr>)"

text \<open>
  The two rubrics, read off the tests of the code: five criteria, each with the note that
  is reported when it is not met. The length of a field is the length of its string, list
  or dictionary. The diagram criterion of the documentation is the presence of the marker
  \<^verbatim>\<open>```mermaid\<close> anywhere in the text, and its code-block criterion is the presence of
  two fence marks.
\<close>

fun is_sized :: "pyval \<Rightarrow> bool" where
  "is_sized (PStr _) = True"
| "is_sized (PList _) = True"
| "is_sized (PDict _) = True"
| "is_sized _ = False"

definition sized_fields :: "pydict \<Rightarrow> bool" where
  \<comment> \<open>the description, divisions, variables and flow diagram, where present, are
      strings or containers, as in a structured analysis\<close>
  "sized_fields sd =
     list_all (\<lambda>k. case map_of sd k of None \<Rightarrow> True | Some v \<Rightarrow> is_sized v)
       [''description'', ''divisions'', ''variables'', ''flow_diagram'']"

definition field_size :: "pydict \<Rightarrow> string \<Rightarrow> nat" where
  "field_size sd k =
     (case map_of sd k of
        Some (PStr s) \<Rightarrow> length s
      | Some (PList xs) \<Rightarrow> length xs
      | Some (PDict kvs) \<Rightarrow> length kvs
      | _ \<Rightarrow> 0)"

definition analysis_rubric :: "pydict \<Rightarrow> (bool \<times> string) list" where
  "analysis_rubric sd =
     [(map_of sd ''program_id'' \<noteq> None \<and> map_of sd ''program_id'' \<noteq> Some (PStr ''Unknown''),
         ''Missing program ID''),
      (field_size sd ''description'' > 20, ''Description missing or too short''),
      (field_size sd ''divisions'' \<ge> 1, ''No divisions identified''),
      (field_size sd ''variables'' \<ge> 1, ''No variables identified''),
      (field_size sd ''flow_diagram'' > 50, ''Flow diagram missing or incomplete'')]"

definition documentation_rubric :: "string \<Rightarrow> (bool \<times> string) list" where
  "documentation_rubric doc =
     [(length doc > 1000, ''Documentation is too short''),
      (str_count ''#'' doc > 3, ''Too few section headings''),
      (str_count ''```'' doc \<ge> 2, ''No code examples included''),
      (str_contains ''```mermaid'' doc, ''No diagrams included''),
      (length (py_split doc) > 300, ''Insufficient explanation text'')]"

definition satisfied :: "(bool \<times> string) list \<Rightarrow> nat" where
  "satisfied rubric = length (filter fst rubric)"

definition unmet_notes :: "(bool \<times> string) list \<Rightarrow> string list" where
  "unmet_notes rubric = map snd (filter (\<lambda>c. \<not> fst c) rubric)"

section \<open>Structure analysis\<close>

fun py_in :: "string \<Rightarrow> pyval \<Rightarrow> py_error + bool" where
  \<comment> \<open>\<^verbatim>\<open>"text" in v\<close>\<close>
  "py_in x (PStr s) = Inr (str_contains x s)"
| "py_in x (PList xs) = Inr (PStr x \<in> set xs)"
| "py_in x (PDict kvs) = Inr (x \<in> fst ` set kvs)"
| "py_in x _ = Inl TypeError"

definition key_holds :: "pydict \<Rightarrow> string \<Rightarrow> string \<Rightarrow> py_error + bool" where
  \<comment> \<open>\<^verbatim>\<open>key in d and x in d[key]\<close>\<close>
  "key_holds d key x = (case map_of d key of None \<Rightarrow> Inr False | Some v \<Rightarrow> py_in x v)"

definition identify_focus_areas :: "pydict \<Rightarrow> py_error + string list" where
  "identify_focus_areas parsed_structure =
     bind_err (key_holds parsed_structure ''divisions'' ''DATA'') (\<lambda>has_data.
     bind_err (key_holds parsed_structure ''divisions'' ''PROCEDURE'') (\<lambda>has_procedure.
     Inr ((if has_data then [''data_structures''] else [])
          @ (if has_procedure then [''business_logic''] else [])
          @ [''program_purpose''])))"

definition analysis_instructions :: "preferences \<Rightarrow> string" where
  \<comment> \<open>\<^verbatim>\<open>custom_instructions\<close> of the analysis\<close>
  "analysis_instructions prefs =
     (if get_user_preference prefs ''detail_level'' PNone = PStr ''high''
      then ''Provide highly detailed analysis with comprehensive breakdown of all code elements. ''
      else if get_user_preference prefs ''detail_level'' PNone = PStr ''low''
      then ''Provide a simplified overview focusing only on key program elements. ''
      else [])
     @ (if get_user_preference prefs ''audience'' PNone = PStr ''technical''
        then ''Target audience is technical developers with COBOL expertise. ''
        else if get_user_preference prefs ''audience'' PNone = PStr ''business''
        then ''Target audience is business stakeholders with limited technical knowledge. ''
        else [])"

definition json_block_pattern :: regex where
  \<comment> \<open>\<^verbatim>\<open>```(?:json)?\s*([\s\S]*?)\s*```\<close>\<close>
  "json_block_pattern =
     Seq (lit ''```'')
       (Seq (Opt (lit ''json''))
         (Seq (Rep Space 0 Greedy)
           (Seq (Grp 1 (Rep AnyChar 0 Lazy))
             (Seq (Rep Space 0 Greedy) (lit ''```'')))))"

definition skeleton :: "string \<Rightarrow> pydict" where
  \<comment> \<open>the simplified parsed structure\<close>
  "skeleton cobol_code =
     [(''program_id'', PStr (extract_program_id cobol_code)),
      (''divisions'', PList (map PStr (identify_divisions cobol_code)))]"

definition no_api_key_analysis :: "string \<Rightarrow> pydict" where
  "no_api_key_analysis cobol_code =
     [(''program_id'', PStr (extract_program_id cobol_code)),
      (''description'', PStr ''Error: No API keys available for any LLM provider''),
      (''divisions'', PList (map PStr (identify_divisions cobol_code))),
      (''variables'', PDict []),
      (''flow_diagram'',
         PStr ''flowchart TD\<newline>    Error[Error: No API Keys] --> Action[Please configure API keys]'')]"

definition basic_structure :: "string \<Rightarrow> pydict" where
  \<comment> \<open>the fallback when the reply is not JSON\<close>
  "basic_structure cobol_code =
     [(''program_id'', PStr (extract_program_id cobol_code)),
      (''description'', PStr ''Could not automatically extract program description.''),
      (''divisions'', PList (map PStr (identify_divisions cobol_code)))]"

definition reply_payload :: "string \<Rightarrow> string" where
  \<comment> \<open>the content of the first fenced block of the reply, or the whole reply, stripped\<close>
  "reply_payload result =
     (case re_search False json_block_pattern result of
        Some (_, _, g) \<Rightarrow> py_strip (group g 1)
      | None \<Rightarrow> py_strip result)"

definition parse_reply :: "world \<Rightarrow> string \<Rightarrow> string \<Rightarrow> pyval" where
  \<comment> \<open>the inner \<^verbatim>\<open>try\<close>: a decoding error gives the basic structure\<close>
  "parse_reply w cobol_code result =
     (case json_loads w (reply_payload result) of
        Some structured_data \<Rightarrow> structured_data
      | None \<Rightarrow> PDict (basic_structure cobol_code))"

definition analyze_cobol_structure ::
  "world \<Rightarrow> preferences \<Rightarrow> string \<Rightarrow> pydict option \<Rightarrow> py_error + pyval" where
  \<comment> \<open>\<open>Inl\<close>: the exception the outer \<^verbatim>\<open>except\<close> logs and raises again\<close>
  "analyze_cobol_structure w prefs cobol_code parsed_structure =
     (let parsed_structure =
            (case parsed_structure of
               None \<Rightarrow> skeleton cobol_code
             | Some ps \<Rightarrow> if ps = [] then skeleton cobol_code else ps)
      in bind_err (identify_focus_areas parsed_structure) (\<lambda>focus_areas.
         let custom_instructions = analysis_instructions prefs;
             current_provider = get_user_preference prefs ''llm_provider'' (PStr ''groq'');
             current_model = get_user_preference prefs ''llm_model'' (PStr ''llama-3.3-70b-versatile'')
         in if current_provider \<in> PStr ` set (providers w)
            then bind_err (generate_text w
                             (AnalysisPrompt parsed_structure cobol_code custom_instructions)
                             current_provider current_model) (\<lambda>result.
                 case parse_reply w cobol_code result of
                   PDict structured_data \<Rightarrow>
                     bind_err (evaluate_analysis_quality structured_data) (\<lambda>quality.
                     Inr (PDict structured_data))
                 | _ \<Rightarrow> Inl AttributeError)
            else if current_provider = PStr ''groq'' \<and> has_api_key w
            then analyze_cobol_with_groq w cobol_code current_model
            else if has_api_key w
            then analyze_cobol_with_groq w cobol_code (PStr ''llama-3.3-70b-versatile'')
            else Inr (PDict (no_api_key_analysis cobol_code))))"

section \<open>Documentation generation\<close>

definition fmt :: "world \<Rightarrow> pyval \<Rightarrow> string" where
  \<comment> \<open>a value inside an f-string\<close>
  "fmt w v = (case v of PStr s \<Rightarrow> s | _ \<Rightarrow> py_str w v)"

fun py_iter :: "pyval \<Rightarrow> py_error + pyval list" where
  \<comment> \<open>\<^verbatim>\<open>for x in v\<close>\<close>
  "py_iter (PStr s) = Inr (map (\<lambda>c. PStr [c]) s)"
| "py_iter (PList xs) = Inr xs"
| "py_iter (PDict kvs) = Inr (map (\<lambda>kv. PStr (fst kv)) kvs)"
| "py_iter _ = Inl TypeError"

definition plan_documentation_sections :: "world \<Rightarrow> pydict \<Rightarrow> py_error + string list" where
  "plan_documentation_sections w structured_data =
     bind_err (if has_key structured_data ''divisions''
               then bind_err (py_iter (dict_get structured_data ''divisions'' (PDict [])))
                      (\<lambda>ds. Inr (map (\<lambda>division. fmt w division @ '' Division'') ds))
               else Inr []) (\<lambda>division_sections.
     bind_err (key_longer_than structured_data ''variables'' (PDict []) 0) (\<lambda>has_variables.
     Inr ([''Introduction'', ''Program Overview''] @ division_sections
          @ (if has_variables then [''Variables and Data Structures''] else [])
          @ (if has_key structured_data ''flow_diagram'' then [''Program Flow''] else [])
          @ [''Summary''])))"

definition documentation_instructions :: "preferences \<Rightarrow> string" where
  \<comment> \<open>\<^verbatim>\<open>custom_instructions\<close> of the documentation; \<^verbatim>\<open>== True\<close> also holds for the number 1\<close>
  "documentation_instructions prefs =
     (if get_user_preference prefs ''documentation_style'' PNone = PStr ''academic''
      then ''Use a formal, academic style with precise terminology. ''
      else if get_user_preference prefs ''documentation_style'' PNone = PStr ''conversational''
      then ''Use a conversational style with accessible explanations. ''
      else [])
     @ (if get_user_preference prefs ''include_examples'' PNone \<in> {PBool True, PNum 1}
        then ''Include practical examples for important code sections. '' else [])
     @ (if get_user_preference prefs ''diagrams'' PNone = PStr ''detailed''
        then ''Create detailed diagrams explaining program flow and structure. '' else [])"

definition enrich :: "world \<Rightarrow> pydict \<Rightarrow> pyval \<Rightarrow> pydict" where
  \<comment> \<open>the enrichment \<^verbatim>\<open>try\<close>: a failure, or a result without \<^verbatim>\<open>keys()\<close>, keeps the
      original data\<close>
  "enrich w structured_data audience_type =
     (case enrich_cobol_documentation w structured_data audience_type of
        Inr (PDict enriched_data) \<Rightarrow> enriched_data
      | _ \<Rightarrow> structured_data)"

definition mcp_context :: "pydict \<Rightarrow> py_error + pyval option" where
  \<comment> \<open>\<^verbatim>\<open>structured_data['mcp_explanation'].get('explanation', '')\<close> when the key is there\<close>
  "mcp_context structured_data =
     (case map_of structured_data ''mcp_explanation'' of
        None \<Rightarrow> Inr None
      | Some (PDict d) \<Rightarrow> Inr (Some (dict_get d ''explanation'' (PStr [])))
      | Some _ \<Rightarrow> Inl AttributeError)"

definition error_message :: "py_error \<Rightarrow> string" where
  \<comment> \<open>\<^verbatim>\<open>str(e)\<close>\<close>
  "error_message e = (case e of ProviderError m \<Rightarrow> m | _ \<Rightarrow> [])"

definition no_api_key_document :: string where
  "no_api_key_document = ''\<newline># COBOL Program Documentation\<newline>\<newline>## Error: API Key Missing\<newline>\<newline>Documentation generation failed because no Groq API key is available.\<newline>\<newline>Please configure a GROQ_API_KEY in your environment settings.\<newline>\<newline>```mermaid\<newline>flowchart TD\<newline>    Error[Error: No API Keys] --> Action[Please configure API keys]\<newline>```\<newline>''"

definition groq_error_document :: "string \<Rightarrow> string" where
  "groq_error_document msg = ''\<newline># COBOL Program Documentation\<newline>\<newline>## Error: Groq API Error\<newline>\<newline>Documentation generation failed due to an error with the Groq API: '' @ msg @ ''\<newline>\<newline>Please check your GROQ_API_KEY and try again.\<newline>''"

definition fallback_to_groq_for_documentation :: "world \<Rightarrow> llm_request \<Rightarrow> string \<Rightarrow> string" where
  "fallback_to_groq_for_documentation w doc_prompt custom_instructions =
     (if \<not> has_api_key w then no_api_key_document
      else (case generate_with_groq w (FallbackDocPrompt custom_instructions doc_prompt)
                   (PStr ''llama-3.3-70b-versatile'') of
              Inr documentation \<Rightarrow> documentation
            | Inl groq_error \<Rightarrow> groq_error_document (error_message groq_error)))"

fun construct_sections :: "world \<Rightarrow> (string \<times> pyval) list \<Rightarrow> py_error + string" where
  \<comment> \<open>the loop over \<^verbatim>\<open>construct_explanations.items()\<close>\<close>
  "construct_sections w [] = Inr []"
| "construct_sections w ((construct, explanation_data) # rest) =
     (case explanation_data of
        PDict d \<Rightarrow>
          (let explanation = dict_get d ''explanation'' (PStr [])
           in bind_err (construct_sections w rest) (\<lambda>more.
              Inr ((if truthy explanation
                    then ''### '' @ construct @ '' Construct\<newline>\<newline>'' @ fmt w explanation @ ''\<newline>\<newline>''
                    else []) @ more)))
      | _ \<Rightarrow> Inl AttributeError)"

fun visual_sections :: "world \<Rightarrow> (string \<times> pyval) list \<Rightarrow> py_error + string" where
  \<comment> \<open>the loop over \<^verbatim>\<open>visual_elements.items()\<close>\<close>
  "visual_sections w [] = Inr []"
| "visual_sections w ((element_name, element_data) # rest) =
     bind_err (py_in ''visual_element'' element_data) (\<lambda>has_visual.
     bind_err (if has_visual
               then (case element_data of
                       PDict d \<Rightarrow>
                         Inr (''### '' @ fmt w (dict_get d ''explanation'' (PStr element_name))
                              @ ''\<newline>\<newline>'' @ fmt w (dict_get d ''visual_element'' PNone) @ ''\<newline>\<newline>'')
                     | _ \<Rightarrow> Inl AttributeError)
               else Inr []) (\<lambda>this.
     bind_err (visual_sections w rest) (\<lambda>more. Inr (this @ more))))"

definition items :: "pyval \<Rightarrow> py_error + (string \<times> pyval) list" where
  \<comment> \<open>\<^verbatim>\<open>v.items()\<close>\<close>
  "items v = (case v of PDict kvs \<Rightarrow> Inr kvs | _ \<Rightarrow> Inl AttributeError)"

definition mcp_section :: "world \<Rightarrow> pydict \<Rightarrow> py_error + string" where
  "mcp_section w structured_data =
     bind_err (case map_of structured_data ''mcp_explanation'' of
                 None \<Rightarrow> Inr []
               | Some (PDict d) \<Rightarrow>
                   (let explanation = dict_get d ''explanation'' (PStr [])
                    in if truthy explanation
                       then (case explanation of
                               PStr e \<Rightarrow> Inr (e @ ''\<newline>\<newline>'')
                             | _ \<Rightarrow> Inl TypeError)
                       else Inr [])
               | Some _ \<Rightarrow> Inl AttributeError) (\<lambda>program_part.
     bind_err (case map_of structured_data ''construct_explanations'' of
                 None \<Rightarrow> Inr []
               | Some v \<Rightarrow> bind_err (items v) (construct_sections w)) (\<lambda>construct_part.
     bind_err (case map_of structured_data ''visual_elements'' of
                 None \<Rightarrow> Inr []
               | Some v \<Rightarrow> bind_err (items v) (visual_sections w)) (\<lambda>visual_part.
     Inr (''\<newline>\<newline>## Simplified Explanations\<newline>\<newline>''
          @ ''*The following explanations are designed for non-technical readers:*\<newline>\<newline>''
          @ program_part @ construct_part @ visual_part))))"

definition add_mcp_explanations :: "world \<Rightarrow> string \<Rightarrow> pydict \<Rightarrow> string" where
  \<comment> \<open>any exception while the section is built returns the documentation as it was\<close>
  "add_mcp_explanations w documentation structured_data =
     (case mcp_section w structured_data of
        Inr section \<Rightarrow> documentation @ section
      | Inl e \<Rightarrow> documentation)"

definition post_process :: "world \<Rightarrow> preferences \<Rightarrow> pydict \<Rightarrow> string \<Rightarrow> string" where
  \<comment> \<open>from \<^verbatim>\<open># Generate diagrams if needed\<close> to the tabbed views\<close>
  "post_process w prefs structured_data documentation =
     (let audience_type = get_user_preference prefs ''audience'' (PStr ''technical'');
          documentation =
            (if \<not> str_contains mermaid_marker documentation
                \<or> truthy (get_user_preference prefs ''enhanced_diagrams'' (PBool False))
             then enhance_with_diagrams w prefs documentation structured_data
             else documentation);
          documentation =
            (if audience_type \<noteq> PStr ''technical'' \<and> has_key structured_data ''construct_explanations''
             then add_mcp_explanations w documentation structured_data
             else documentation);
          documentation = separate_thinking_process documentation
      in case enhance_markdown_with_tabs w documentation of
           Inr tabbed \<Rightarrow> tabbed
         | Inl e \<Rightarrow> documentation)"

definition generate_documentation :: "world \<Rightarrow> preferences \<Rightarrow> pyval \<Rightarrow> py_error + string" where
  \<comment> \<open>\<open>Inl\<close>: the exception raised to the caller. The quality evaluation of the
      generated text is only logged and cannot raise on a string.\<close>
  "generate_documentation w prefs structured_data =
     (case structured_data of
        PDict structured_data \<Rightarrow>
          bind_err (plan_documentation_sections w structured_data) (\<lambda>planned_sections.
          let custom_instructions = documentation_instructions prefs;
              audience_type = get_user_preference prefs ''audience'' (PStr ''technical'');
              structured_data = enrich w structured_data audience_type;
              current_provider = get_user_preference prefs ''llm_provider'' (PStr ''groq'');
              current_model = get_user_preference prefs ''llm_model'' (PStr ''llama-3.3-70b-versatile'')
          in bind_err (mcp_context structured_data) (\<lambda>context.
             let doc_prompt = DocPrompt custom_instructions structured_data context
             in bind_err
                  (if current_provider \<in> PStr ` set (providers w)
                   then generate_text w doc_prompt current_provider current_model
                   else if current_provider = PStr ''groq'' \<and> has_api_key w
                   then (case generate_with_groq w doc_prompt
                                (if truthy current_model then current_model
                                 else PStr ''llama-3.1-8b-versatile'') of
                           Inr documentation \<Rightarrow> Inr documentation
                         | Inl groq_error \<Rightarrow>
                             Inr (fallback_to_groq_for_documentation w doc_prompt custom_instructions))
                   else Inr (fallback_to_groq_for_documentation w doc_prompt custom_instructions))
                  (\<lambda>documentation. Inr (post_process w prefs structured_data documentation))))
      | _ \<Rightarrow> Inl AttributeError)"

section \<open>What the claims speak of\<close>

text \<open>
  A fenced diagram block with a given code: the marker, white space, the code, white
  space, the closing fence. A block is valid when the validator says so of its code.
\<close>

definition fenced_diagram_in :: "string \<Rightarrow> string \<Rightarrow> bool" where
  "fenced_diagram_in text code =
     (\<exists>pre ws1 ws2 post.
        text = pre @ ''```mermaid'' @ ws1 @ code @ ws2 @ ''```'' @ post
        \<and> (\<forall>c\<in>set ws1. is_space c) \<and> (\<forall>c\<in>set ws2. is_space c))"

definition contains_fenced_diagram :: "string \<Rightarrow> bool" where
  "contains_fenced_diagram text = (\<exists>code. fenced_diagram_in text code)"


definition tabs_keep_marker :: "world \<Rightarrow> bool" where
  \<comment> \<open>the tabbed-view transform only adds markup\<close>
  "tabs_keep_marker w =
     (\<forall>d t. enhance_markdown_with_tabs w d = Inr t \<and> str_contains mermaid_marker d
            \<longrightarrow> str_contains mermaid_marker t)"

definition provider_registered :: "world \<Rightarrow> preferences \<Rightarrow> bool" where
  "provider_registered w prefs =
     (get_user_preference prefs ''llm_provider'' (PStr ''groq'') \<in> PStr ` set (providers w))"

definition analysis_request :: "preferences \<Rightarrow> string \<Rightarrow> llm_request" where
  \<comment> \<open>the prompt of an analysis for which no parsed structure was supplied\<close>
  "analysis_request prefs cobol_code =
     AnalysisPrompt (skeleton cobol_code) cobol_code (analysis_instructions prefs)"

definition analysis_reply :: "world \<Rightarrow> preferences \<Rightarrow> string \<Rightarrow> py_error + string" where
  "analysis_reply w prefs cobol_code =
     generate_text w (analysis_request prefs cobol_code)
       (get_user_preference prefs ''llm_provider'' (PStr ''groq''))
       (get_user_preference prefs ''llm_model'' (PStr ''llama-3.3-70b-versatile''))"

subsection \<open>Sample worlds\<close>

definition quiet_world :: world where
  \<comment> \<open>no provider registered, no key, every collaborator failing; the validator
      accepts what it is given\<close>
  "quiet_world =
     \<lparr>providers = [], groq_api_key = None,
      generate_text = (\<lambda>_ _ _. Inl (ProviderError ''unavailable'')),
      generate_with_groq = (\<lambda>_ _. Inl (ProviderError ''unavailable'')),
      analyze_cobol_with_groq = (\<lambda>_ _. Inl (ProviderError ''unavailable'')),
      json_loads = (\<lambda>_. None),
      validate_mermaid_syntax = (\<lambda>code. (True, code, ''valid'')),
      enrich_cobol_documentation = (\<lambda>_ _. Inl (ProviderError ''unavailable'')),
      enhance_markdown_with_tabs = (\<lambda>d. Inr d),
      py_str = (\<lambda>_. [])\<rparr>"

definition timeout_world :: world where
  \<comment> \<open>the preferred provider is registered and its call raises\<close>
  "timeout_world =
     quiet_world\<lparr>providers := [''groq''],
       generate_text := (\<lambda>_ _ _. Inl (ProviderError ''timeout''))\<rparr>"

definition empty_object_world :: world where
  \<comment> \<open>the provider answers with the empty JSON object\<close>
  "empty_object_world =
     quiet_world\<lparr>providers := [''groq''],
       generate_text := (\<lambda>_ _ _. Inr ''{}''),
       json_loads := (\<lambda>payload. if payload = ''{}'' then Some (PDict []) else None)\<rparr>"

definition garbled_world :: world where
  \<comment> \<open>the provider answers with text that is not JSON\<close>
  "garbled_world =
     quiet_world\<lparr>providers := [''groq''],
       generate_text := (\<lambda>_ _ _. Inr ''I cannot help with that.'')\<rparr>"

definition marker_only_world :: world where
  \<comment> \<open>the provider answers with an opening diagram fence and nothing else\<close>
  "marker_only_world =
     quiet_world\<lparr>providers := [''groq''],
       generate_text := (\<lambda>_ _ _. Inr ''```mermaid'')\<rparr>"

definition fewer_diagrams_world :: world where
  \<comment> \<open>the enhancement call returns a text with a single diagram\<close>
  "fewer_diagrams_world =
     quiet_world\<lparr>generate_with_groq := (\<lambda>_ _. Inr ''```mermaid\<newline>A\<newline>```'')\<rparr>"

subsection \<open>Sample inputs for the rubric\<close>

definition sd_full :: pydict where
  "sd_full = [(''program_id'', PStr ''PAYROLL''),
     (''description'', PStr ''Computes the monthly payroll''),
     (''divisions'', PDict [(''DATA'', PDict [])]),
     (''variables'', PDict [(''WS-TOTAL'', PStr ''running total'')]),
     (''flow_diagram'', PStr ''flowchart TD\<newline>    Start([Start]) --> Init[Initialize]\<newline>    Init --> End([End])'')]"

definition sd_poor :: pydict where
  "sd_poor = [(''description'', PStr ''short'')]"

definition doc_full :: string where
  \<comment> \<open>five hundred one-letter words, then four heading marks and a fenced diagram marker\<close>
  "doc_full = concat (replicate 500 ''a '') @ ''#### ```mermaid ```''"

section \<open>The matcher and the pre-parse\<close>


lemma word_not_space: "in_class WordHyphen c \<Longrightarrow> \<not> is_space c"
  by (auto simp: is_word_def is_space_def Let_def)

lemma py_strip_no_space: "\<forall>c\<in>set s. \<not> is_space c \<Longrightarrow> py_strip s = s"
proof -
  assume a: "\<forall>c\<in>set s. \<not> is_space c"
  have 1: "dropWhile is_space s = s" using a by (cases s) auto
  have 2: "dropWhile is_space (rev s) = rev s" using a by (cases "rev s") (auto simp: rev_eq_Cons_iff)
  show ?thesis by (simp add: py_strip_def 1 2)
qed

lemma rmatch_lit:
  "rmatch ic (lit w) (p, r, g) =
     (if length w \<le> length r \<and> list_all2 (char_eq ic) w (take (length w) r)
      then [(p + length w, drop (length w) r, g)] else [])"
proof (induction w arbitrary: p r)
  case Nil
  show ?case by simp
next
  case (Cons c w)
  show ?case by (cases r) (simp_all add: Cons.IH)
qed

lemma in_rmatch_Seq:
  "s' \<in> set (rmatch ic (Seq a b) s) \<longleftrightarrow>
     (\<exists>p1 r1 g1. (p1, r1, g1) \<in> set (rmatch ic a s) \<and> s' \<in> set (rmatch ic b (p1, r1, g1)))"
  by auto

lemma in_rmatch_Rep:
  "(e, r', g') \<in> set (rmatch ic (Rep cl mn gr) (p, r, g)) \<longleftrightarrow>
     (\<exists>k. mn \<le> k \<and> k \<le> length (takeWhile (in_class cl) r) \<and> e = p + k \<and> r' = drop k r \<and> g' = g)"
  by (cases gr) (auto simp: Let_def image_iff)

lemma in_rmatch_Grp:
  "(e, r', g') \<in> set (rmatch ic (Grp n a) (p, r, g)) \<longleftrightarrow>
     (\<exists>g0. (e, r', g0) \<in> set (rmatch ic a (p, r, g)) \<and> g' = g0(n \<mapsto> take (e - p) r))"
  by (force simp: image_iff)

lemma in_rmatch_Chr:
  "(e, r', g') \<in> set (rmatch ic (Chr c) (p, r, g)) \<longleftrightarrow>
     (\<exists>x. r = x # r' \<and> char_eq ic c x \<and> e = Suc p \<and> g' = g)"
  by (cases r) auto

lemma in_rmatch_lit:
  "(e, r', g') \<in> set (rmatch ic (lit w) (p, r, g)) \<longleftrightarrow>
     (\<exists>u. r = u @ r' \<and> list_all2 (char_eq ic) w u \<and> e = p + length w \<and> g' = g)"
proof -
  have "length w \<le> length r \<and> list_all2 (char_eq ic) w (take (length w) r) \<and> r' = drop (length w) r
        \<longleftrightarrow> (\<exists>u. r = u @ r' \<and> list_all2 (char_eq ic) w u)"
  proof
    assume h: "length w \<le> length r \<and> list_all2 (char_eq ic) w (take (length w) r) \<and> r' = drop (length w) r"
    then have "r = take (length w) r @ r'" by simp
    with h show "\<exists>u. r = u @ r' \<and> list_all2 (char_eq ic) w u" by blast
  next
    assume "\<exists>u. r = u @ r' \<and> list_all2 (char_eq ic) w u"
    then obtain u where u: "r = u @ r'" "list_all2 (char_eq ic) w u" by blast
    then have "length u = length w" by (simp add: list_all2_lengthD)
    with u show "length w \<le> length r \<and> list_all2 (char_eq ic) w (take (length w) r) \<and> r' = drop (length w) r"
      by simp
  qed
  then show ?thesis by (auto simp: rmatch_lit)
qed

lemma take_run:
  "k \<le> length (takeWhile P r) \<Longrightarrow> r = take k r @ drop k r \<and> (\<forall>c\<in>set (take k r). P c) \<and> length (take k r) = k"
proof -
  assume k: "k \<le> length (takeWhile P r)"
  have "length (takeWhile P r) \<le> length r" by (rule length_takeWhile_le)
  with k have kl: "k \<le> length r" by simp
  have "take k r = take k (takeWhile P r)"
    using k take_append [of k "takeWhile P r" "dropWhile P r"] by simp
  then have "set (take k r) \<subseteq> set (takeWhile P r)" by (simp add: set_take_subset)
  then have "\<forall>c\<in>set (take k r). P c" by (auto dest: set_takeWhileD)
  with kl show ?thesis by simp
qed


lemma to_lower_code:
  "(of_char (to_lower c) :: nat) =
     (if (65 \<le> (of_char c :: nat) \<and> (of_char c :: nat) \<le> 90)
         \<or> (192 \<le> (of_char c :: nat) \<and> (of_char c :: nat) \<le> 222 \<and> (of_char c :: nat) \<noteq> 215)
      then of_char c + 32 else of_char c)"
  by (simp add: to_lower_def Let_def)

lemma char_eq_dot: "char_eq True CHR ''.'' x \<Longrightarrow> x = CHR ''.''"
proof -
  assume "char_eq True CHR ''.'' x"
  then have "to_lower x = CHR ''.''" by (simp add: char_eq_def to_lower_def)
  then have "(of_char (to_lower x) :: nat) = 46" by simp
  then have "(of_char x :: nat) = of_char CHR ''.''"
    unfolding to_lower_code by (simp split: if_splits)
  then show ?thesis by (simp only: of_char_eq_iff)
qed

lemma list_all2_char_eq: "list_all2 (char_eq True) w u \<longleftrightarrow> map to_lower u = map to_lower w"
  by (induction w arbitrary: u) (auto simp: list_all2_Cons1 char_eq_def)

lemma program_id_pattern_sound:
  assumes "(e, r', g') \<in> set (rmatch True program_id_pattern (p, r, g))"
  shows "\<exists>kw ws1 ws2 pid.
        r = kw @ ws1 @ ''.'' @ ws2 @ pid @ r'
        \<and> map to_lower kw = map to_lower ''PROGRAM-ID''
        \<and> (\<forall>c\<in>set ws1. is_space c) \<and> (\<forall>c\<in>set ws2. is_space c)
        \<and> pid \<noteq> [] \<and> (\<forall>c\<in>set pid. in_class WordHyphen c) \<and> g' 1 = Some pid"
proof -
  from assms obtain p1 r1 g1 where
    m1: "(p1, r1, g1) \<in> set (rmatch True (lit ''PROGRAM-ID'') (p, r, g))" and
    n1: "(e, r', g') \<in> set (rmatch True
           (Seq (Rep Space 0 Greedy) (Seq (Chr CHR ''.'') (Seq (Rep Space 0 Greedy) (Grp 1 (Rep WordHyphen 1 Greedy)))))
           (p1, r1, g1))"
    unfolding program_id_pattern_def in_rmatch_Seq [of _ _ "lit ''PROGRAM-ID''"] by blast
  from m1 obtain kw where kw: "r = kw @ r1" "map to_lower kw = map to_lower ''PROGRAM-ID''"
    unfolding in_rmatch_lit list_all2_char_eq by blast
  from n1 obtain p2 r2 g2 where
    m2: "(p2, r2, g2) \<in> set (rmatch True (Rep Space 0 Greedy) (p1, r1, g1))" and
    n2: "(e, r', g') \<in> set (rmatch True
           (Seq (Chr CHR ''.'') (Seq (Rep Space 0 Greedy) (Grp 1 (Rep WordHyphen 1 Greedy)))) (p2, r2, g2))"
    unfolding in_rmatch_Seq [of _ _ "Rep Space 0 Greedy"] by blast
  from m2 obtain k1 where k1: "k1 \<le> length (takeWhile (in_class Space) r1)" "r2 = drop k1 r1"
    unfolding in_rmatch_Rep by blast
  from n2 obtain p3 r3 g3 where
    m3: "(p3, r3, g3) \<in> set (rmatch True (Chr CHR ''.'') (p2, r2, g2))" and
    n3: "(e, r', g') \<in> set (rmatch True
           (Seq (Rep Space 0 Greedy) (Grp 1 (Rep WordHyphen 1 Greedy))) (p3, r3, g3))"
    unfolding in_rmatch_Seq [of _ _ "Chr CHR ''.''"] by blast
  from m3 have dot: "r2 = CHR ''.'' # r3"
    unfolding in_rmatch_Chr by (auto dest: char_eq_dot)
  from n3 obtain p4 r4 g4 where
    m4: "(p4, r4, g4) \<in> set (rmatch True (Rep Space 0 Greedy) (p3, r3, g3))" and
    n4: "(e, r', g') \<in> set (rmatch True (Grp 1 (Rep WordHyphen 1 Greedy)) (p4, r4, g4))"
    unfolding in_rmatch_Seq [of _ _ "Rep Space 0 Greedy"] by blast
  from m4 obtain k2 where k2: "k2 \<le> length (takeWhile (in_class Space) r3)" "r4 = drop k2 r3"
    unfolding in_rmatch_Rep by blast
  from n4 obtain k3 where k3: "1 \<le> k3" "k3 \<le> length (takeWhile (in_class WordHyphen) r4)"
    "e = p4 + k3" "r' = drop k3 r4" "g' 1 = Some (take k3 r4)"
    unfolding in_rmatch_Grp in_rmatch_Rep by (auto simp del: rmatch.simps)
  note t1 = take_run [OF k1(1)] and t2 = take_run [OF k2(1)] and t3 = take_run [OF k3(2)]
  have "r = kw @ take k1 r1 @ ''.'' @ take k2 r3 @ take k3 r4 @ r'"
    using kw(1) k1(2) dot k2(2) k3(4) t1 t2 t3 by (metis append_Cons append_Nil)
  moreover have "take k3 r4 \<noteq> []" using t3 k3(1) by (metis One_nat_def length_0_conv not_one_le_zero)
  ultimately show ?thesis
    using kw(2) t1 t2 t3 k3(5) by (intro exI [of _ kw] exI [of _ "take k1 r1"] exI [of _ "take k2 r3"] exI [of _ "take k3 r4"]) simp
qed


lemma search_from_Some:
  "search_from ic re p s = Some (st, e, g) \<Longrightarrow>
   \<exists>k r'. k \<le> length s \<and> st = p + k \<and> (e, r', g) \<in> set (rmatch ic re (st, drop k s, Map.empty))"
proof (induction s arbitrary: p)
  case Nil
  then show ?case by (auto simp del: rmatch.simps split: list.splits)
next
  case (Cons c cs)
  show ?case
  proof (cases "rmatch ic re (p, c # cs, Map.empty)")
    case Nil
    with Cons.prems have "search_from ic re (Suc p) cs = Some (st, e, g)" by simp
    from Cons.IH [OF this] obtain k r' where
      "k \<le> length cs" "st = Suc p + k" "(e, r', g) \<in> set (rmatch ic re (st, drop k cs, Map.empty))"
      by blast
    then show ?thesis by (intro exI [of _ "Suc k"] exI [of _ r']) simp
  next
    case (Cons m ms)
    obtain e0 r0 g0 where m: "m = (e0, r0, g0)" by (cases m)
    with Cons Cons.prems have "st = p" "e = e0" "g = g0" by simp_all
    with Cons m show ?thesis by (intro exI [of _ 0] exI [of _ r0]) simp
  qed
qed

lemma program_id_found:
  "extract_program_id code = ''Unknown'' \<or> program_id_occurs code (extract_program_id code)"
proof (cases "re_search True program_id_pattern code")
  case None
  then show ?thesis by (simp add: extract_program_id_def)
next
  case (Some m)
  obtain st e g where m: "m = (st, e, g)" by (cases m)
  from Some m obtain k r' where k: "k \<le> length code"
    "(e, r', g) \<in> set (rmatch True program_id_pattern (st, drop k code, Map.empty))"
    unfolding re_search_def by (blast dest: search_from_Some)
  from program_id_pattern_sound [OF k(2)] obtain kw ws1 ws2 pid where d:
    "drop k code = kw @ ws1 @ ''.'' @ ws2 @ pid @ r'"
    "map to_lower kw = map to_lower ''PROGRAM-ID''"
    "\<forall>c\<in>set ws1. is_space c" "\<forall>c\<in>set ws2. is_space c"
    "pid \<noteq> []" "\<forall>c\<in>set pid. in_class WordHyphen c" "g 1 = Some pid"
    by blast
  have "py_strip pid = pid" using d(6) by (intro py_strip_no_space) (blast dest: word_not_space)
  then have r: "extract_program_id code = pid"
    using Some m d(7) by (simp add: extract_program_id_def group_def)
  have "code = take k code @ kw @ ws1 @ ''.'' @ ws2 @ pid @ r'"
    using d(1) by (metis append_take_drop_id)
  then have "program_id_occurs code pid"
    unfolding program_id_occurs_def using d(2-6) by (intro exI [of _ "take k code"] exI [of _ kw] exI [of _ ws1] exI [of _ ws2] exI [of _ r']) simp
  with r show ?thesis by simp
qed

lemma division_names_skip:
  "division_names_in_order code names \<Longrightarrow> division_names_in_order (c # code) names"
proof (induction rule: division_names_in_order.cases)
  case (no_more code)
  then show ?case by (simp add: division_names_in_order.no_more)
next
  case (next_name code' pre name ws kw rest names')
  then have "c # code = (c # pre) @ name @ ws @ kw @ rest" by simp
  from division_names_in_order.next_name [OF this next_name(4-9)] next_name(2) show ?case by simp
qed

lemma division_pattern_sound:
  assumes "(e, r', g') \<in> set (rmatch True division_pattern (p, r, g))"
  shows "\<exists>name ws kw.
        r = name @ ws @ kw @ r'
        \<and> name \<noteq> [] \<and> (\<forall>c\<in>set name. in_class WordHyphen c)
        \<and> ws \<noteq> [] \<and> (\<forall>c\<in>set ws. is_space c)
        \<and> map to_lower kw = map to_lower ''DIVISION'' \<and> g' 1 = Some name"
proof -
  from assms obtain p1 r1 g1 where
    m1: "(p1, r1, g1) \<in> set (rmatch True (Grp 1 (Rep WordHyphen 1 Greedy)) (p, r, g))" and
    n1: "(e, r', g') \<in> set (rmatch True (Seq (Rep Space 1 Greedy) (lit ''DIVISION'')) (p1, r1, g1))"
    unfolding division_pattern_def in_rmatch_Seq [of _ _ "Grp 1 (Rep WordHyphen 1 Greedy)"] by blast
  from m1 obtain k1 where k1: "1 \<le> k1" "k1 \<le> length (takeWhile (in_class WordHyphen) r)"
    "r1 = drop k1 r" "g1 1 = Some (take k1 r)"
    unfolding in_rmatch_Grp in_rmatch_Rep by (auto simp del: rmatch.simps)
  from n1 obtain p2 r2 g2 where
    m2: "(p2, r2, g2) \<in> set (rmatch True (Rep Space 1 Greedy) (p1, r1, g1))" and
    n2: "(e, r', g') \<in> set (rmatch True (lit ''DIVISION'') (p2, r2, g2))"
    unfolding in_rmatch_Seq [of _ _ "Rep Space 1 Greedy"] by blast
  from m2 obtain k2 where k2: "1 \<le> k2" "k2 \<le> length (takeWhile (in_class Space) r1)"
    "r2 = drop k2 r1" "g2 = g1"
    unfolding in_rmatch_Rep by blast
  from n2 obtain kw where kw: "r2 = kw @ r'" "map to_lower kw = map to_lower ''DIVISION''" "g' = g2"
    unfolding in_rmatch_lit list_all2_char_eq by blast
  note t1 = take_run [OF k1(2)] and t2 = take_run [OF k2(2)]
  have "r = take k1 r @ take k2 r1 @ kw @ r'"
    using k1(3) k2(3) kw(1) t1 t2 by metis
  moreover have "take k1 r \<noteq> []" "take k2 r1 \<noteq> []"
    using t1 t2 k1(1) k2(1) by (metis One_nat_def length_0_conv not_one_le_zero)+
  ultimately show ?thesis
    using kw(2,3) k2(4) k1(4) t1 t2
    by (intro exI [of _ "take k1 r"] exI [of _ "take k2 r1"] exI [of _ kw]) simp
qed

lemma finditer_division_sound:
  "ic = True \<Longrightarrow> re = division_pattern \<Longrightarrow>
   division_names_in_order s
     (map (\<lambda>(_, _, g). py_strip (group g 1)) (finditer_from ic re p s))"
proof (induction ic re p s rule: finditer_from.induct)
  case (1 ic re p s)
  note ic = \<open>ic = True\<close> and re = \<open>re = division_pattern\<close>
  show ?case
  proof (cases "rmatch ic re (p, s, Map.empty)")
    case Nil
    show ?thesis
    proof (cases s)
      case Nil
      with \<open>rmatch ic re (p, s, Map.empty) = []\<close> show ?thesis
        by (subst finditer_from.simps) (simp add: no_more)
    next
      case (Cons c cs)
      from "1.IH"(1) [OF Nil Cons ic re] Nil Cons show ?thesis
        by (subst finditer_from.simps) (simp add: division_names_skip)
    qed
  next
    case (Cons m ms)
    obtain e r' g where m: "m = (e, r', g)" by (cases m)
    with Cons have "(e, r', g) \<in> set (rmatch True division_pattern (p, s, Map.empty))"
      using ic re by simp
    from division_pattern_sound [OF this] obtain name ws kw where d:
      "s = name @ ws @ kw @ r'" "name \<noteq> []" "\<forall>c\<in>set name. in_class WordHyphen c"
      "ws \<noteq> []" "\<forall>c\<in>set ws. is_space c" "map to_lower kw = map to_lower ''DIVISION''"
      "g 1 = Some name" by blast
    have short: "length r' < length s" using d(1,2) by (cases name) simp_all
    have strip: "py_strip (group g 1) = name"
      using d(3,7) by (simp add: group_def py_strip_no_space word_not_space)
    have rest: "division_names_in_order r'
       (map (\<lambda>(_, _, g). py_strip (group g 1)) (finditer_from ic re e r'))"
      using "1.IH"(2) [OF Cons _ _ short ic re] m by simp
    have "division_names_in_order s
       (name # map (\<lambda>(_, _, g). py_strip (group g 1)) (finditer_from ic re e r'))"
      using d(1) d(2) d(3) d(4) d(5) d(6) rest
      by (intro next_name [of s "[]" name ws kw r']) simp_all
    then show ?thesis
      using Cons m short strip by (subst finditer_from.simps) simp
  qed
qed




lemma division_pattern_at_end:
  "rmatch True division_pattern (p, [], g) = []"
  by (simp add: division_pattern_def)



text \<open>
  C7. For every source text, the empty one included, the pre-parse returns (both
  functions are total): the program identifier is \<open>Unknown\<close> or an identifier that
  stands in the text after a \<^verbatim>\<open>PROGRAM-ID\<close> marker in any letter case, and the divisions
  are names that stand in the text before a \<^verbatim>\<open>DIVISION\<close> marker, in order of occurrence.
  The empty text gives \<open>Unknown\<close> and no division.
\<close>

theorem preparse_skeleton:
  "(extract_program_id code = ''Unknown'' \<or> program_id_occurs code (extract_program_id code))
   \<and> division_names_in_order code (identify_divisions code)
   \<and> extract_program_id [] = ''Unknown'' \<and> identify_divisions [] = []"
proof -
  have "extract_program_id [] = ''Unknown''"
    by (simp add: extract_program_id_def re_search_def program_id_pattern_def)
  moreover have "identify_divisions [] = []"
    unfolding identify_divisions_def re_finditer_def
    by (subst finditer_from.simps) (simp add: division_pattern_at_end del: rmatch.simps)
  ultimately show ?thesis
    using program_id_found [of code] finditer_division_sound [of True division_pattern code 0]
    by (simp add: identify_divisions_def re_finditer_def)
qed

theorem preparse_skeleton_witness:
  "extract_program_id ''PROGRAM-ID. PAYROLL.\<newline>PROCEDURE DIVISION.'' = ''PAYROLL''
   \<and> program_id_occurs ''PROGRAM-ID. PAYROLL.\<newline>PROCEDURE DIVISION.'' ''PAYROLL''
   \<and> identify_divisions ''PROGRAM-ID. PAYROLL.\<newline>PROCEDURE DIVISION.'' = [''PROCEDURE'']
   \<and> division_names_in_order ''PROGRAM-ID. PAYROLL.\<newline>PROCEDURE DIVISION.'' [''PROCEDURE'']"
proof -
  have e: "extract_program_id ''PROGRAM-ID. PAYROLL.\<newline>PROCEDURE DIVISION.'' = ''PAYROLL''"
    by code_simp
  have d: "identify_divisions ''PROGRAM-ID. PAYROLL.\<newline>PROCEDURE DIVISION.'' = [''PROCEDURE'']"
    by code_simp
  show ?thesis
    using preparse_skeleton [of "''PROGRAM-ID. PAYROLL.\<newline>PROCEDURE DIVISION.''"]
    unfolding e d by simp
qed




section \<open>Thinking-process separation\<close>


lemma char_eq_nonletter:
  assumes "\<not> (65 \<le> (of_char c :: nat) \<and> (of_char c :: nat) \<le> 90)"
    "\<not> (97 \<le> (of_char c :: nat) \<and> (of_char c :: nat) \<le> 122)"
    "(of_char c :: nat) < 192"
  shows "char_eq ic c x \<longleftrightarrow> x = c"
proof (cases ic)
  case False
  then show ?thesis by (auto simp: char_eq_def)
next
  case True
  have lc: "to_lower c = c" using assms by (auto simp: to_lower_def Let_def)
  have "to_lower x = c \<longleftrightarrow> x = c"
  proof
    assume h: "to_lower x = c"
    then have "(of_char (to_lower x) :: nat) = of_char c" by simp
    then have "(of_char x :: nat) = of_char c"
      unfolding to_lower_code using assms by (simp split: if_splits)
    then show "x = c" by (simp only: of_char_eq_iff)
  next
    assume "x = c" then show "to_lower x = c" using lc by simp
  qed
  with True lc show ?thesis by (auto simp: char_eq_def)
qed

lemma char_eq_hash [simp]: "char_eq ic CHR ''#'' x \<longleftrightarrow> x = CHR ''#''"
  by (rule char_eq_nonletter) simp_all

lemma char_eq_newline [simp]: "char_eq ic CHR 0x0A x \<longleftrightarrow> x = CHR 0x0A"
  by (rule char_eq_nonletter) simp_all

lemma in_rmatch_Alt:
  "s' \<in> set (rmatch ic (Alt a b) s) \<longleftrightarrow> s' \<in> set (rmatch ic a s) \<or> s' \<in> set (rmatch ic b s)"
  by simp

lemma heading_mark_iff:
  "rmatch ic (Seq (Chr CHR ''#'') (Rep Space 1 Greedy)) (q, r, g) \<noteq> [] \<longleftrightarrow> starts_heading r"
proof (cases r)
  case Nil
  then show ?thesis by simp
next
  case (Cons a t)
  show ?thesis
  proof (cases t)
    case Nil
    with Cons show ?thesis by simp
  next
    case (Cons c u)
    with \<open>r = a # t\<close> show ?thesis by (cases "is_space c") simp_all
  qed
qed

lemma line_start_states:
  "rmatch ic (Grp 1 (Alt Bol (Chr CHR 0x0A))) (i, r, g) =
     (if i = 0 then [(i, r, g(1 \<mapsto> []))] else []) @
     (case r of [] \<Rightarrow> [] | c # t \<Rightarrow> if c = CHR 0x0A then [(Suc i, t, g(1 \<mapsto> [c]))] else [])"
  by (cases r) simp_all

lemma first_heading_iff:
  "rmatch ic first_heading_pattern (i, drop i doc, g) \<noteq> [] \<longleftrightarrow> top_heading_at doc i"
proof -
  define mark where "mark = Seq (Chr CHR ''#'') (Rep Space 1 Greedy)"
  have hm: "rmatch ic mark (q, r, h) \<noteq> [] \<longleftrightarrow> starts_heading r" for q r h
    unfolding mark_def by (rule heading_mark_iff)
  have "rmatch ic first_heading_pattern (i, drop i doc, g) =
      concat (map (rmatch ic mark) (rmatch ic (Grp 1 (Alt Bol (Chr CHR 0x0A))) (i, drop i doc, g)))"
    unfolding first_heading_pattern_def mark_def by (simp only: rmatch.simps)
  then show ?thesis
    unfolding line_start_states top_heading_at_def
    by (cases "drop i doc") (auto simp: hm simp del: rmatch.simps)
qed


lemma title_match_heading:
  assumes "rmatch True doc_title_pattern (i, drop i doc, g) \<noteq> []"
  shows "top_heading_at doc i"
proof -
  define mark where "mark = Seq (Chr CHR ''#'') (Rep Space 1 Greedy)"
  have hm: "rmatch True mark (q, r, h) \<noteq> [] \<longleftrightarrow> starts_heading r" for q r h
    unfolding mark_def by (rule heading_mark_iff)
  from assms obtain x where "x \<in> set (rmatch True doc_title_pattern (i, drop i doc, g))"
    by (meson last_in_set)
  then obtain p1 r1 g1 p2 r2 g2 p3 r3 g3 where
    a: "(p1, r1, g1) \<in> set (rmatch True (Grp 1 (Alt Bol (Chr CHR 0x0A))) (i, drop i doc, g))" and
    b: "(p2, r2, g2) \<in> set (rmatch True (Chr CHR ''#'') (p1, r1, g1))" and
    c: "(p3, r3, g3) \<in> set (rmatch True (Rep Space 1 Greedy) (p2, r2, g2))"
    unfolding doc_title_pattern_def
      in_rmatch_Seq [of _ _ "Grp 1 (Alt Bol (Chr CHR 0x0A))"]
      in_rmatch_Seq [of _ _ "Chr CHR ''#''"]
      in_rmatch_Seq [of _ _ "Rep Space 1 Greedy"]
    by blast
  from b c have "(p3, r3, g3) \<in> set (rmatch True mark (p1, r1, g1))"
    unfolding mark_def in_rmatch_Seq by blast
  then have "rmatch True mark (p1, r1, g1) \<noteq> []" by auto
  then have sh: "starts_heading r1" by (simp only: hm)
  from a sh show ?thesis
    unfolding line_start_states top_heading_at_def
    by (cases "drop i doc") (auto split: if_splits)
qed

lemma search_from_None_iff:
  "search_from ic re p s = None \<longleftrightarrow>
     (\<forall>k\<le>length s. rmatch ic re (p + k, drop k s, Map.empty) = [])"
proof (induction s arbitrary: p)
  case Nil
  show ?case by (auto simp del: rmatch.simps split: list.splits)
next
  case (Cons c cs)
  have "(\<forall>k\<le>length (c # cs). rmatch ic re (p + k, drop k (c # cs), Map.empty) = []) \<longleftrightarrow>
        rmatch ic re (p, c # cs, Map.empty) = [] \<and>
        (\<forall>k\<le>length cs. rmatch ic re (Suc p + k, drop k cs, Map.empty) = [])"
  proof (intro iffI conjI allI impI)
    assume h: "\<forall>k\<le>length (c # cs). rmatch ic re (p + k, drop k (c # cs), Map.empty) = []"
    from h [rule_format, of 0] show "rmatch ic re (p, c # cs, Map.empty) = []" by simp
    fix k assume "k \<le> length cs"
    with h [rule_format, of "Suc k"] show "rmatch ic re (Suc p + k, drop k cs, Map.empty) = []"
      by simp
  next
    fix k
    assume h: "rmatch ic re (p, c # cs, Map.empty) = [] \<and>
        (\<forall>k\<le>length cs. rmatch ic re (Suc p + k, drop k cs, Map.empty) = [])"
      and k: "k \<le> length (c # cs)"
    show "rmatch ic re (p + k, drop k (c # cs), Map.empty) = []"
    proof (cases k)
      case 0
      with h show ?thesis by simp
    next
      case (Suc j)
      with k h [THEN conjunct2, rule_format, of j] show ?thesis by simp
    qed
  qed
  then show ?case
    by (simp add: Cons.IH del: rmatch.simps split: list.splits)
qed

lemma search_from_least:
  "search_from ic re p s = Some (st, e, g) \<Longrightarrow>
   \<exists>k\<le>length s. st = p + k \<and> rmatch ic re (p + k, drop k s, Map.empty) \<noteq> []
      \<and> (\<forall>j<k. rmatch ic re (p + j, drop j s, Map.empty) = [])"
proof (induction s arbitrary: p)
  case Nil
  then show ?case by (auto simp del: rmatch.simps split: list.splits)
next
  case (Cons c cs)
  show ?case
  proof (cases "rmatch ic re (p, c # cs, Map.empty)")
    case Nil
    with Cons.prems have "search_from ic re (Suc p) cs = Some (st, e, g)" by simp
    from Cons.IH [OF this] obtain k where k: "k \<le> length cs" "st = Suc p + k"
      "rmatch ic re (Suc p + k, drop k cs, Map.empty) \<noteq> []"
      "\<forall>j<k. rmatch ic re (Suc p + j, drop j cs, Map.empty) = []" by blast
    have "\<forall>j<Suc k. rmatch ic re (p + j, drop j (c # cs), Map.empty) = []"
    proof (intro allI impI)
      fix j assume "j < Suc k"
      then show "rmatch ic re (p + j, drop j (c # cs), Map.empty) = []"
        using Nil k(4) by (cases j) simp_all
    qed
    with k(1-3) show ?thesis by (intro exI [of _ "Suc k"]) simp
  next
    case (Cons m ms)
    obtain e0 r0 g0 where m: "m = (e0, r0, g0)" by (cases m)
    with Cons Cons.prems have "st = p" by simp
    with Cons show ?thesis by (intro exI [of _ 0]) simp
  qed
qed

lemma py_strip_empty_iff: "py_strip s = [] \<longleftrightarrow> (\<forall>c\<in>set s. is_space c)"
proof -
  have "py_strip s = [] \<longleftrightarrow> (\<forall>c\<in>set (dropWhile is_space s). is_space c)"
    by (simp only: py_strip_def rev_is_Nil_conv dropWhile_eq_Nil_conv set_rev)
  also have "\<dots> \<longleftrightarrow> dropWhile is_space s = []"
  proof
    assume h: "\<forall>c\<in>set (dropWhile is_space s). is_space c"
    show "dropWhile is_space s = []"
    proof (rule ccontr)
      assume n: "dropWhile is_space s \<noteq> []"
      then have "\<not> is_space (hd (dropWhile is_space s))" by (rule hd_dropWhile)
      moreover have "hd (dropWhile is_space s) \<in> set (dropWhile is_space s)" using n by simp
      ultimately show False using h by blast
    qed
  next
    assume "dropWhile is_space s = []"
    then show "\<forall>c\<in>set (dropWhile is_space s). is_space c"
      by (simp del: dropWhile_eq_Nil_conv)
  qed
  also have "\<dots> \<longleftrightarrow> (\<forall>c\<in>set s. is_space c)" by (simp only: dropWhile_eq_Nil_conv)
  finally show ?thesis .
qed

lemma py_strip_skip: "\<forall>c\<in>set a. is_space c \<Longrightarrow> py_strip (a @ b) = py_strip b"
  by (simp add: py_strip_def dropWhile_append2)

lemma has_top_heading_iff: "has_top_heading doc \<longleftrightarrow> (\<exists>i\<le>length doc. top_heading_at doc i)"
proof -
  have "set [0 ..< Suc (length doc)] = {i. i \<le> length doc}" by auto
  then show ?thesis unfolding has_top_heading_def list_ex_iff by blast
qed


lemma split_heading_None: "split_heading doc = None \<longleftrightarrow> \<not> has_top_heading doc"
proof
  assume "split_heading doc = None"
  then have "re_search False first_heading_pattern doc = None"
    by (auto simp: split_heading_def split: option.splits)
  then have "\<forall>k\<le>length doc. rmatch False first_heading_pattern (k, drop k doc, Map.empty) = []"
    unfolding re_search_def search_from_None_iff by simp
  then show "\<not> has_top_heading doc"
    unfolding has_top_heading_iff using first_heading_iff [of False _ doc Map.empty] by blast
next
  assume n: "\<not> has_top_heading doc"
  then have none: "\<forall>k\<le>length doc. \<not> top_heading_at doc k"
    unfolding has_top_heading_iff by blast
  have "\<forall>k\<le>length doc. rmatch True doc_title_pattern (0 + k, drop k doc, Map.empty) = []"
    using none title_match_heading [of _ doc Map.empty] by auto
  then have t: "re_search True doc_title_pattern doc = None"
    unfolding re_search_def search_from_None_iff .
  have "\<forall>k\<le>length doc. rmatch False first_heading_pattern (0 + k, drop k doc, Map.empty) = []"
    using none first_heading_iff [of False _ doc Map.empty] by auto
  then have "re_search False first_heading_pattern doc = None"
    unfolding re_search_def search_from_None_iff .
  with t show "split_heading doc = None" by (simp add: split_heading_def)
qed

lemma split_heading_Some:
  assumes "split_heading doc = Some p"
  shows "p \<le> length doc \<and> top_heading_at doc p
     \<and> (re_search True doc_title_pattern doc = None \<longrightarrow> (\<forall>i<p. \<not> top_heading_at doc i))"
proof (cases "re_search True doc_title_pattern doc")
  case None
  with assms obtain e g where "search_from False first_heading_pattern 0 doc = Some (p, e, g)"
    by (auto simp: split_heading_def re_search_def split: option.splits)
  from search_from_least [OF this] have
    "p \<le> length doc" "rmatch False first_heading_pattern (p, drop p doc, Map.empty) \<noteq> []"
    "\<forall>j<p. rmatch False first_heading_pattern (j, drop j doc, Map.empty) = []"
    by auto
  with None show ?thesis
    using first_heading_iff [of False _ doc Map.empty] by auto
next
  case (Some m)
  with assms obtain e g where "search_from True doc_title_pattern 0 doc = Some (p, e, g)"
    by (cases m) (auto simp: split_heading_def re_search_def split: option.splits)
  from search_from_least [OF this] have
    "p \<le> length doc" "rmatch True doc_title_pattern (p, drop p doc, Map.empty) \<noteq> []"
    by auto
  with Some show ?thesis using title_match_heading by auto
qed

lemma separate_by_split:
  "separate_thinking_process doc =
     (case split_heading doc of
        None \<Rightarrow> doc
      | Some p \<Rightarrow>
          if py_strip (take p doc) = [] then py_strip (drop p doc)
          else py_strip (drop p doc) @ ''\<newline>\<newline># Thinking Process\<newline>\<newline>'' @ py_strip (take p doc))"
  by (simp add: separate_thinking_process_def split_heading_def Let_def split: option.splits)

text \<open>
  C9, as the code has it. A text without a top-level heading is returned unchanged. With
  one, the text is split at a heading (the start of the first title match or, without a
  title match, the first top-level heading); when only white space precedes the split
  the result is the text with its leading and trailing white space removed (unchanged
  only if there is none), otherwise it is the stripped main part, a
  \<^verbatim>\<open># Thinking Process\<close> section, and the stripped preceding content.
\<close>

theorem separate_thinking_process_cases:
  "(\<not> has_top_heading doc \<longrightarrow> separate_thinking_process doc = doc)
   \<and> (has_top_heading doc \<longrightarrow> split_heading doc \<noteq> None)
   \<and> (\<forall>p. split_heading doc = Some p \<longrightarrow>
          p \<le> length doc \<and> top_heading_at doc p
          \<and> (re_search True doc_title_pattern doc = None \<longrightarrow> (\<forall>i<p. \<not> top_heading_at doc i))
          \<and> separate_thinking_process doc =
              (if py_strip (take p doc) = [] then py_strip doc
               else py_strip (drop p doc) @ ''\<newline>\<newline># Thinking Process\<newline>\<newline>''
                      @ py_strip (take p doc)))"
proof (intro conjI allI impI)
  assume "\<not> has_top_heading doc"
  then show "separate_thinking_process doc = doc"
    by (simp add: separate_by_split split_heading_None [symmetric])
next
  assume "has_top_heading doc"
  then show "split_heading doc \<noteq> None" by (simp add: split_heading_None)
next
  fix p assume p: "split_heading doc = Some p"
  from split_heading_Some [OF p] show "p \<le> length doc" "top_heading_at doc p" by simp_all
  show "separate_thinking_process doc =
      (if py_strip (take p doc) = [] then py_strip doc
       else py_strip (drop p doc) @ ''\<newline>\<newline># Thinking Process\<newline>\<newline>'' @ py_strip (take p doc))"
  proof (cases "py_strip (take p doc) = []")
    case True
    then have "\<forall>c\<in>set (take p doc). is_space c" by (simp only: py_strip_empty_iff)
    from py_strip_skip [OF this, of "drop p doc"] have "py_strip doc = py_strip (drop p doc)" by simp
    with True p show ?thesis by (simp add: separate_by_split)
  next
    case False
    with p show ?thesis by (simp add: separate_by_split)
  qed
next
  fix p i
  assume "split_heading doc = Some p" "re_search True doc_title_pattern doc = None" "i < p"
  with split_heading_Some show "\<not> top_heading_at doc i" by blast
qed


theorem separate_thinking_process_cases_witness:
  "has_top_heading ''plain text'' = False
   \<and> separate_thinking_process ''plain text'' = ''plain text''
   \<and> has_top_heading ''Let me think.\<newline>\<newline># PAYROLL Documentation\<newline>Body\<newline>''
   \<and> split_heading ''Let me think.\<newline>\<newline># PAYROLL Documentation\<newline>Body\<newline>'' = Some 14
   \<and> top_heading_at ''Let me think.\<newline>\<newline># PAYROLL Documentation\<newline>Body\<newline>'' 14
   \<and> separate_thinking_process ''Let me think.\<newline>\<newline># PAYROLL Documentation\<newline>Body\<newline>''
       = ''# PAYROLL Documentation\<newline>Body\<newline>\<newline># Thinking Process\<newline>\<newline>Let me think.''
   \<and> split_heading ''  \<newline># Title\<newline>body  '' = Some 2
   \<and> separate_thinking_process ''  \<newline># Title\<newline>body  '' = ''# Title\<newline>body''"
proof -
  let ?w1 = "''plain text''"
  let ?w2 = "''Let me think.\<newline>\<newline># PAYROLL Documentation\<newline>Body\<newline>''"
  let ?w3 = "''  \<newline># Title\<newline>body  ''"
  have a: "\<not> has_top_heading ?w1" "has_top_heading ?w2"
    "split_heading ?w2 = Some 14" "split_heading ?w3 = Some 2"
    by code_simp+
  have b: "py_strip (take 14 ?w2) = ''Let me think.''"
    "py_strip (drop 14 ?w2) = ''# PAYROLL Documentation\<newline>Body''"
    "py_strip (take 2 ?w3) = []"
    "py_strip ?w3 = ''# Title\<newline>body''"
    by code_simp+
  have r1: "separate_thinking_process ?w1 = ?w1"
    using separate_thinking_process_cases [of ?w1] a(1) by blast
  have "top_heading_at ?w2 14 \<and> separate_thinking_process ?w2 =
      (if py_strip (take 14 ?w2) = [] then py_strip ?w2
       else py_strip (drop 14 ?w2) @ ''\<newline>\<newline># Thinking Process\<newline>\<newline>'' @ py_strip (take 14 ?w2))"
    using separate_thinking_process_cases [of ?w2] a(3) by blast
  then have r2: "top_heading_at ?w2 14 \<and> separate_thinking_process ?w2 =
      ''# PAYROLL Documentation\<newline>Body\<newline>\<newline># Thinking Process\<newline>\<newline>Let me think.''"
    unfolding b by simp
  have "separate_thinking_process ?w3 =
      (if py_strip (take 2 ?w3) = [] then py_strip ?w3
       else py_strip (drop 2 ?w3) @ ''\<newline>\<newline># Thinking Process\<newline>\<newline>'' @ py_strip (take 2 ?w3))"
    using separate_thinking_process_cases [of ?w3] a(4) by blast
  then have r3: "separate_thinking_process ?w3 = ''# Title\<newline>body''"
    unfolding b by simp
  show ?thesis
    using a r1 r2 r3 by simp
qed

text \<open>
  C9 as stated fails: a text that starts with a heading, so has no preamble, is not
  returned unchanged when it ends in white space.
\<close>

theorem separate_thinking_process_strips:
  "split_heading ''# A\<newline>'' = Some 0
   \<and> separate_thinking_process ''# A\<newline>'' = ''# A''
   \<and> separate_thinking_process ''# A\<newline>'' \<noteq> ''# A\<newline>''"
proof -
  have "split_heading ''# A\<newline>'' = Some 0" "separate_thinking_process ''# A\<newline>'' = ''# A''"
    by code_simp+
  then show ?thesis by simp
qed

section \<open>Quality evaluation follows the rubric\<close>

lemma key_longer_than_sized:
  "(case map_of sd k of None \<Rightarrow> True | Some v \<Rightarrow> is_sized v) \<Longrightarrow>
   key_longer_than sd k dflt n = Inr (field_size sd k > n)"
  by (cases "map_of sd k"; cases "the (map_of sd k)")
     (simp_all add: key_longer_than_def has_key_def dict_get_def field_size_def bind_err_def)

lemma tally_chain:
  "tally c5 n5 (tally c4 n4 (tally c3 n3 (tally c2 n2 (tally c1 n1 (0, []))))) =
   (satisfied [(c1, n1), (c2, n2), (c3, n3), (c4, n4), (c5, n5)],
    unmet_notes [(c1, n1), (c2, n2), (c3, n3), (c4, n4), (c5, n5)])"
  by (simp add: tally_def satisfied_def unmet_notes_def)

lemma analysis_quality_rubric:
  assumes "sized_fields sd"
  shows "evaluate_analysis_quality sd =
     Inr \<lparr>quality_score = satisfied (analysis_rubric sd),
          quality_level = level_of (satisfied (analysis_rubric sd)),
          quality_notes = unmet_notes (analysis_rubric sd)\<rparr>"
proof -
  have k: "key_longer_than sd ''description'' (PStr []) 20 = Inr (field_size sd ''description'' > 20)"
    "key_longer_than sd ''divisions'' (PDict []) 0 = Inr (field_size sd ''divisions'' \<ge> 1)"
    "key_longer_than sd ''variables'' (PDict []) 0 = Inr (field_size sd ''variables'' \<ge> 1)"
    "key_longer_than sd ''flow_diagram'' (PStr []) 50 = Inr (field_size sd ''flow_diagram'' > 50)"
    using assms by (simp_all add: sized_fields_def key_longer_than_sized Suc_le_eq)
  have p: "(has_key sd ''program_id'' \<and> dict_get sd ''program_id'' PNone \<noteq> PStr ''Unknown'')
     = (map_of sd ''program_id'' \<noteq> None \<and> map_of sd ''program_id'' \<noteq> Some (PStr ''Unknown''))"
    by (auto simp: has_key_def dict_get_def)
  show ?thesis
    unfolding evaluate_analysis_quality_def k p bind_err_def Let_def sum.case tally_chain analysis_rubric_def
    by (simp only: fst_conv snd_conv)
qed

lemma documentation_quality_rubric:
  "evaluate_documentation_quality doc =
     \<lparr>quality_score = satisfied (documentation_rubric doc),
      quality_level = level_of (satisfied (documentation_rubric doc)),
      quality_notes = unmet_notes (documentation_rubric doc)\<rparr>"
  unfolding evaluate_documentation_quality_def Let_def tally_chain documentation_rubric_def
  by (simp only: fst_conv snd_conv)


lemma satisfied_all: "list_all fst r \<Longrightarrow> satisfied r = length r \<and> unmet_notes r = []"
  by (induction r) (auto simp: satisfied_def unmet_notes_def)

lemma notes_count: "length (unmet_notes r) + satisfied r = length r"
  by (induction r) (auto simp: satisfied_def unmet_notes_def)

lemma py_split_space: "is_space c \<Longrightarrow> py_split (c # s) = py_split s"
  by (simp add: py_split.simps [of "c # s"] py_split.simps [of s])

lemma py_split_word:
  "\<not> is_space c \<Longrightarrow>
   py_split (c # s) = (c # takeWhile (\<lambda>x. \<not> is_space x) s) # py_split (dropWhile (\<lambda>x. \<not> is_space x) s)"
  by (simp add: py_split.simps [of "c # s"])

lemma str_count_Cons:
  "str_count sub (c # s) =
     (if sub = [] then 0
      else if prefix sub (c # s) then Suc (str_count sub (drop (length sub) (c # s)))
      else str_count sub s)"
  by (subst str_count.simps) simp

lemma str_count_Nil: "str_count sub [] = 0"
  by (simp add: str_count.simps)

lemma py_split_filler: "length (py_split (concat (replicate n ''a '') @ t)) = n + length (py_split t)"
proof (induction n)
  case 0
  show ?case by simp
next
  case (Suc n)
  have "py_split (''a '' @ u) = ''a'' # py_split u" for u
    by (simp add: py_split_word py_split_space is_space_def)
  with Suc show ?case by simp
qed

lemma str_count_filler:
  "hd sub \<noteq> CHR ''a'' \<Longrightarrow> hd sub \<noteq> CHR '' '' \<Longrightarrow> sub \<noteq> [] \<Longrightarrow>
   str_count sub (concat (replicate n ''a '') @ t) = str_count sub t"
proof (induction n)
  case 0
  show ?case by simp
next
  case (Suc n)
  have "str_count sub (''a '' @ u) = str_count sub u" for u
    using Suc.prems
    by (cases sub) (simp_all add: str_count_Cons)
  with Suc show ?case by simp
qed

lemma str_contains_filler:
  "hd sub \<noteq> CHR ''a'' \<Longrightarrow> hd sub \<noteq> CHR '' '' \<Longrightarrow> sub \<noteq> [] \<Longrightarrow>
   str_contains sub (concat (replicate n ''a '') @ t) = str_contains sub t"
  by (induction n) (auto simp: prefix_Cons neq_Nil_conv)

lemma doc_full_rubric: "list_all fst (documentation_rubric doc_full)"
proof -
  have 1: "length doc_full > 1000"
    by (simp add: doc_full_def length_concat sum_list_replicate)
  have 2: "str_count ''#'' doc_full = str_count ''#'' ''#### ```mermaid ```''"
    unfolding doc_full_def by (rule str_count_filler) simp_all
  have 3: "str_count ''```'' doc_full = str_count ''```'' ''#### ```mermaid ```''"
    unfolding doc_full_def by (rule str_count_filler) simp_all
  have 4: "str_contains ''```mermaid'' doc_full = str_contains ''```mermaid'' ''#### ```mermaid ```''"
    unfolding doc_full_def by (rule str_contains_filler) simp_all
  have 5: "length (py_split doc_full) = 500 + length (py_split ''#### ```mermaid ```'')"
    unfolding doc_full_def by (rule py_split_filler)
  have e: "str_count ''#'' ''#### ```mermaid ```'' = 4" "str_count ''```'' ''#### ```mermaid ```'' = 2"
    "str_contains ''```mermaid'' ''#### ```mermaid ```''"  "length (py_split ''#### ```mermaid ```'') = 3"
    by code_simp+
  show ?thesis
    unfolding documentation_rubric_def using 1 by (simp add: 2 3 4 5 e)
qed

lemma key_longer_than_unsized:
  "\<not> (case map_of sd k of None \<Rightarrow> True | Some v \<Rightarrow> is_sized v) \<Longrightarrow>
   key_longer_than sd k dflt n = Inl TypeError"
  by (cases "map_of sd k"; cases "the (map_of sd k)")
     (simp_all add: key_longer_than_def has_key_def dict_get_def bind_err_def)

lemma key_longer_than_error:
  "key_longer_than sd k dflt n = Inl e \<Longrightarrow> e = TypeError"
  by (cases "map_of sd k"; cases "the (map_of sd k)")
     (simp_all add: key_longer_than_def has_key_def dict_get_def bind_err_def)

lemma analysis_quality_raises:
  assumes "\<not> sized_fields sd"
  shows "evaluate_analysis_quality sd = Inl TypeError"
proof -
  from assms consider
      "key_longer_than sd ''description'' (PStr []) 20 = Inl TypeError"
    | "key_longer_than sd ''divisions'' (PDict []) 0 = Inl TypeError"
    | "key_longer_than sd ''variables'' (PDict []) 0 = Inl TypeError"
    | "key_longer_than sd ''flow_diagram'' (PStr []) 50 = Inl TypeError"
    using key_longer_than_unsized [of sd] by (auto simp: sized_fields_def)
  then show ?thesis
    using key_longer_than_error [of sd "''description''" "PStr []" 20]
      key_longer_than_error [of sd "''divisions''" "PDict []" 0]
      key_longer_than_error [of sd "''variables''" "PDict []" 0]
    by cases (auto simp: evaluate_analysis_quality_def bind_err_def Let_def split: sum.splits)
qed

text \<open>
  C5, as the code has it. Both evaluators return as score the number of criteria that are
  met, as level \<open>low\<close> below 2, \<open>medium\<close> from 2 and below 4, \<open>high\<close> otherwise, and one
  note for each criterion that is not met, in rubric order; an input meeting all five
  criteria scores 5 and is \<open>high\<close>, one meeting at most one is \<open>low\<close>. The analysis is
  scored only when its description, divisions, variables and flow diagram, where present,
  are strings, lists or dictionaries; when one of them is anything else, taking its length
  raises \<^verbatim>\<open>TypeError\<close> and there is no score. The criteria are the tests the code makes:
  for the documentation, more than 1000 characters, more than three \<^verbatim>\<open>#\<close>, at least two
  fence marks, the diagram marker somewhere in the text, and more than 300 words.
\<close>

theorem quality_follows_rubric:
  "(sized_fields sd \<longrightarrow>
      evaluate_analysis_quality sd =
        Inr \<lparr>quality_score = satisfied (analysis_rubric sd),
             quality_level = level_of (satisfied (analysis_rubric sd)),
             quality_notes = unmet_notes (analysis_rubric sd)\<rparr>)
   \<and> (\<not> sized_fields sd \<longrightarrow> evaluate_analysis_quality sd = Inl TypeError)
   \<and> evaluate_documentation_quality doc =
        \<lparr>quality_score = satisfied (documentation_rubric doc),
         quality_level = level_of (satisfied (documentation_rubric doc)),
         quality_notes = unmet_notes (documentation_rubric doc)\<rparr>
   \<and> map fst (analysis_rubric sd) =
        [map_of sd ''program_id'' \<noteq> None \<and> map_of sd ''program_id'' \<noteq> Some (PStr ''Unknown''),
         field_size sd ''description'' > 20, field_size sd ''divisions'' \<ge> 1,
         field_size sd ''variables'' \<ge> 1, field_size sd ''flow_diagram'' > 50]
   \<and> map fst (documentation_rubric doc) =
        [length doc > 1000, str_count ''#'' doc > 3, str_count ''```'' doc \<ge> 2,
         str_contains ''```mermaid'' doc, length (py_split doc) > 300]
   \<and> length (unmet_notes (analysis_rubric sd)) + satisfied (analysis_rubric sd) = 5
   \<and> length (unmet_notes (documentation_rubric doc)) + satisfied (documentation_rubric doc) = 5
   \<and> level_of n = (if n < 2 then ''low'' else if 2 \<le> n \<and> n < 4 then ''medium'' else ''high'')
   \<and> (sized_fields sd \<and> list_all fst (analysis_rubric sd) \<longrightarrow>
        evaluate_analysis_quality sd =
          Inr \<lparr>quality_score = 5, quality_level = ''high'', quality_notes = []\<rparr>)
   \<and> (list_all fst (documentation_rubric doc) \<longrightarrow>
        evaluate_documentation_quality doc =
          \<lparr>quality_score = 5, quality_level = ''high'', quality_notes = []\<rparr>)
   \<and> (sized_fields sd \<and> satisfied (analysis_rubric sd) \<le> 1 \<longrightarrow>
        (\<exists>q. evaluate_analysis_quality sd = Inr q \<and> quality_level q = ''low''))
   \<and> (satisfied (documentation_rubric doc) \<le> 1 \<longrightarrow>
        quality_level (evaluate_documentation_quality doc) = ''low'')"
proof -
  have la: "length (analysis_rubric sd) = 5" by (simp add: analysis_rubric_def)
  have ld: "length (documentation_rubric doc) = 5" by (simp add: documentation_rubric_def)
  have lv: "level_of 5 = ''high''" by (simp add: level_of_def)
  have low: "\<And>k. k \<le> 1 \<Longrightarrow> level_of k = ''low''" by (simp add: level_of_def)
  have ra: "map fst (analysis_rubric sd) =
        [map_of sd ''program_id'' \<noteq> None \<and> map_of sd ''program_id'' \<noteq> Some (PStr ''Unknown''),
         field_size sd ''description'' > 20, field_size sd ''divisions'' \<ge> 1,
         field_size sd ''variables'' \<ge> 1, field_size sd ''flow_diagram'' > 50]"
    by (simp add: analysis_rubric_def)
  have rd: "map fst (documentation_rubric doc) =
        [length doc > 1000, str_count ''#'' doc > 3, str_count ''```'' doc \<ge> 2,
         str_contains ''```mermaid'' doc, length (py_split doc) > 300]"
    by (simp add: documentation_rubric_def)
  have main: "(sized_fields sd \<longrightarrow>
      evaluate_analysis_quality sd =
        Inr \<lparr>quality_score = satisfied (analysis_rubric sd),
             quality_level = level_of (satisfied (analysis_rubric sd)),
             quality_notes = unmet_notes (analysis_rubric sd)\<rparr>)
   \<and> evaluate_documentation_quality doc =
        \<lparr>quality_score = satisfied (documentation_rubric doc),
         quality_level = level_of (satisfied (documentation_rubric doc)),
         quality_notes = unmet_notes (documentation_rubric doc)\<rparr>
   \<and> length (unmet_notes (analysis_rubric sd)) + satisfied (analysis_rubric sd) = 5
   \<and> length (unmet_notes (documentation_rubric doc)) + satisfied (documentation_rubric doc) = 5
   \<and> level_of n = (if n < 2 then ''low'' else if 2 \<le> n \<and> n < 4 then ''medium'' else ''high'')
   \<and> (sized_fields sd \<and> list_all fst (analysis_rubric sd) \<longrightarrow>
        evaluate_analysis_quality sd =
          Inr \<lparr>quality_score = 5, quality_level = ''high'', quality_notes = []\<rparr>)
   \<and> (list_all fst (documentation_rubric doc) \<longrightarrow>
        evaluate_documentation_quality doc =
          \<lparr>quality_score = 5, quality_level = ''high'', quality_notes = []\<rparr>)
   \<and> (sized_fields sd \<and> satisfied (analysis_rubric sd) \<le> 1 \<longrightarrow>
        (\<exists>q. evaluate_analysis_quality sd = Inr q \<and> quality_level q = ''low''))
   \<and> (satisfied (documentation_rubric doc) \<le> 1 \<longrightarrow>
        quality_level (evaluate_documentation_quality doc) = ''low'')"
    using satisfied_all [of "analysis_rubric sd"] satisfied_all [of "documentation_rubric doc"]
      notes_count [of "analysis_rubric sd"] notes_count [of "documentation_rubric doc"]
    by (auto simp: analysis_quality_rubric documentation_quality_rubric la ld lv low level_of_def)
  from main ra rd analysis_quality_raises [of sd] show ?thesis by blast
qed

text \<open>
  An analysis and a documentation meeting every criterion, two meeting at most one, and
  an analysis whose variables are a number.
\<close>

theorem quality_follows_rubric_witness:
  "sized_fields sd_full \<and> list_all fst (analysis_rubric sd_full)
   \<and> evaluate_analysis_quality sd_full =
         Inr \<lparr>quality_score = 5, quality_level = ''high'', quality_notes = []\<rparr>
   \<and> list_all fst (documentation_rubric doc_full)
   \<and> evaluate_documentation_quality doc_full =
         \<lparr>quality_score = 5, quality_level = ''high'', quality_notes = []\<rparr>
   \<and> sized_fields sd_poor \<and> satisfied (analysis_rubric sd_poor) \<le> 1
   \<and> (\<exists>q. evaluate_analysis_quality sd_poor = Inr q \<and> quality_level q = ''low'')
   \<and> satisfied (documentation_rubric ''# Title'') \<le> 1
   \<and> quality_level (evaluate_documentation_quality ''# Title'') = ''low''
   \<and> sized_fields [(''variables'', PNum 3)] = False
   \<and> evaluate_analysis_quality [(''variables'', PNum 3)] = Inl TypeError"
proof -
  have a: "sized_fields sd_full \<and> list_all fst (analysis_rubric sd_full)"
    by code_simp
  have b: "sized_fields sd_poor \<and> satisfied (analysis_rubric sd_poor) \<le> 1"
    by code_simp
  have c: "satisfied (documentation_rubric ''# Title'') \<le> 1"
    by code_simp
  have d: "sized_fields [(''variables'', PNum 3)] = False"
    by code_simp
  note full = quality_follows_rubric [of sd_full doc_full 5]
  note poor = quality_follows_rubric [of sd_poor "''# Title''" 0]
  note unsized = quality_follows_rubric [of "[(''variables'', PNum 3)]" "''# Title''" 0]
  have r1: "evaluate_analysis_quality sd_full =
         Inr \<lparr>quality_score = 5, quality_level = ''high'', quality_notes = []\<rparr>
      \<and> evaluate_documentation_quality doc_full =
         \<lparr>quality_score = 5, quality_level = ''high'', quality_notes = []\<rparr>"
    using a doc_full_rubric
      full [THEN conjunct2, THEN conjunct2, THEN conjunct2, THEN conjunct2, THEN conjunct2,
        THEN conjunct2, THEN conjunct2, THEN conjunct2]
    by blast
  have r2: "(\<exists>q. evaluate_analysis_quality sd_poor = Inr q \<and> quality_level q = ''low'')
      \<and> quality_level (evaluate_documentation_quality ''# Title'') = ''low''"
    using b c
      poor [THEN conjunct2, THEN conjunct2, THEN conjunct2, THEN conjunct2, THEN conjunct2,
        THEN conjunct2, THEN conjunct2, THEN conjunct2]
    by blast
  have r3: "evaluate_analysis_quality [(''variables'', PNum 3)] = Inl TypeError"
    using d unsized [THEN conjunct2, THEN conjunct1] by blast
  show ?thesis
    by (intro conjI) (use a b c d doc_full_rubric r1 r2 r3 in blast)+
qed

text \<open>
  C5 as stated fails: an analysis whose description is \<^verbatim>\<open>null\<close> makes the evaluator
  raise, and a documentation that is an opening fence only, which holds no diagram block,
  has the diagram criterion counted as met.
\<close>

theorem quality_not_by_stated_rubric:
  "evaluate_analysis_quality [(''description'', PNone)] = Inl TypeError
   \<and> evaluate_documentation_quality ''```mermaid'' =
       \<lparr>quality_score = 1, quality_level = ''low'',
        quality_notes = [''Documentation is too short'', ''Too few section headings'',
          ''No code examples included'', ''Insufficient explanation text'']\<rparr>
   \<and> contains_fenced_diagram ''```mermaid'' = False"
proof -
  have a: "evaluate_analysis_quality [(''description'', PNone)] = Inl TypeError"
    by code_simp
  have b: "evaluate_documentation_quality ''```mermaid'' =
       \<lparr>quality_score = 1, quality_level = ''low'',
        quality_notes = [''Documentation is too short'', ''Too few section headings'',
          ''No code examples included'', ''Insufficient explanation text'']\<rparr>"
    by code_simp
  have "\<not> fenced_diagram_in ''```mermaid'' code" for code
  proof
    assume "fenced_diagram_in ''```mermaid'' code"
    then obtain pre ws1 ws2 post where
      "''```mermaid'' = pre @ ''```mermaid'' @ ws1 @ code @ ws2 @ ''```'' @ post"
      unfolding fenced_diagram_in_def by blast
    then have "length ''```mermaid'' = length (pre @ ''```mermaid'' @ ws1 @ code @ ws2 @ ''```'' @ post)"
      by (rule arg_cong)
    then show False by simp
  qed
  then have "contains_fenced_diagram ''```mermaid'' = False"
    by (simp add: contains_fenced_diagram_def)
  with a b show ?thesis by blast
qed

section \<open>Structure analysis: failure paths and the program identifier\<close>

lemma focus_areas_skeleton: "\<exists>fa. identify_focus_areas (skeleton code) = Inr fa"
  by (simp add: identify_focus_areas_def key_holds_def skeleton_def bind_err_def)

lemma quality_basic_structure: "\<exists>q. evaluate_analysis_quality (basic_structure code) = Inr q"
  by (rule exI, rule analysis_quality_rubric) (simp add: sized_fields_def basic_structure_def)

lemma extract_program_id_nonempty:
  "extract_program_id code \<noteq> [] \<and>
   (extract_program_id code = ''Unknown'' \<or> program_id_occurs code (extract_program_id code))"
  using program_id_found [of code] by (auto simp: program_id_occurs_def)

lemma analyze_unfold:
  "analyze_cobol_structure w prefs code None =
     (if provider_registered w prefs
      then bind_err (analysis_reply w prefs code) (\<lambda>result.
             case parse_reply w code result of
               PDict structured_data \<Rightarrow>
                 bind_err (evaluate_analysis_quality structured_data) (\<lambda>quality.
                 Inr (PDict structured_data))
             | _ \<Rightarrow> Inl AttributeError)
      else if get_user_preference prefs ''llm_provider'' (PStr ''groq'') = PStr ''groq'' \<and> has_api_key w
      then analyze_cobol_with_groq w code
             (get_user_preference prefs ''llm_model'' (PStr ''llama-3.3-70b-versatile''))
      else if has_api_key w
      then analyze_cobol_with_groq w code (PStr ''llama-3.3-70b-versatile'')
      else Inr (PDict (no_api_key_analysis code)))"
proof -
  obtain fa where fa: "identify_focus_areas (skeleton code) = Inr fa"
    using focus_areas_skeleton by blast
  show ?thesis
    unfolding analyze_cobol_structure_def provider_registered_def analysis_reply_def
      analysis_request_def
    by (simp add: fa bind_err_def Let_def)
qed

text \<open>
  C2, as the code has it. With no registered provider and no API key the analysis is the
  fixed error object (its description the fixed error sentence, its flow diagram the two-node
  graph); when the registered provider answers and the payload does not parse, the analysis
  is the fallback object built from the heuristic skeleton; when the registered provider
  raises, the \<^verbatim>\<open>except ... raise\<close> of lines 232--235 hands the same
  error on to the caller.
\<close>
theorem analysis_failure_paths:
  "(\<not> provider_registered w prefs \<and> \<not> has_api_key w \<longrightarrow>
      analyze_cobol_structure w prefs code None = Inr (PDict (no_api_key_analysis code)))
   \<and> (provider_registered w prefs \<and> analysis_reply w prefs code = Inr result
        \<and> json_loads w (reply_payload result) = None \<longrightarrow>
      analyze_cobol_structure w prefs code None = Inr (PDict (basic_structure code)))
   \<and> (provider_registered w prefs \<and> analysis_reply w prefs code = Inl e \<longrightarrow>
      analyze_cobol_structure w prefs code None = Inl e)
   \<and> map_of (no_api_key_analysis code) ''description''
        = Some (PStr ''Error: No API keys available for any LLM provider'')
   \<and> map_of (no_api_key_analysis code) ''flow_diagram''
        = Some (PStr ''flowchart TD\<newline>    Error[Error: No API Keys] --> Action[Please configure API keys]'')
   \<and> map_of (basic_structure code) ''description''
        = Some (PStr ''Could not automatically extract program description.'')
   \<and> map_of (basic_structure code) ''divisions''
        = Some (PList (map PStr (identify_divisions code)))"
proof -
  obtain q where q: "evaluate_analysis_quality (basic_structure code) = Inr q"
    using quality_basic_structure by blast
  have paths:
    "\<not> provider_registered w prefs \<and> \<not> has_api_key w \<longrightarrow>
       analyze_cobol_structure w prefs code None = Inr (PDict (no_api_key_analysis code))"
    "provider_registered w prefs \<and> analysis_reply w prefs code = Inr result
        \<and> json_loads w (reply_payload result) = None \<longrightarrow>
       analyze_cobol_structure w prefs code None = Inr (PDict (basic_structure code))"
    "provider_registered w prefs \<and> analysis_reply w prefs code = Inl e \<longrightarrow>
       analyze_cobol_structure w prefs code None = Inl e"
    unfolding analyze_unfold by (simp_all add: bind_err_def parse_reply_def q)
  have fields:
    "map_of (no_api_key_analysis code) ''description''
        = Some (PStr ''Error: No API keys available for any LLM provider'')"
    "map_of (no_api_key_analysis code) ''flow_diagram''
        = Some (PStr ''flowchart TD\<newline>    Error[Error: No API Keys] --> Action[Please configure API keys]'')"
    "map_of (basic_structure code) ''description''
        = Some (PStr ''Could not automatically extract program description.'')"
    "map_of (basic_structure code) ''divisions''
        = Some (PList (map PStr (identify_divisions code)))"
    by (simp_all add: no_api_key_analysis_def basic_structure_def)
  from paths fields show ?thesis by blast
qed

text \<open>
  The three paths at concrete worlds: no provider and no key, a provider whose answer is no
  JSON, and a provider that raises.
\<close>
theorem analysis_failure_paths_witness:
  "provider_registered quiet_world Map.empty = False \<and> has_api_key quiet_world = False
   \<and> analyze_cobol_structure quiet_world Map.empty ''PROGRAM-ID. PAYROLL.'' None
       = Inr (PDict (no_api_key_analysis ''PROGRAM-ID. PAYROLL.''))
   \<and> provider_registered garbled_world Map.empty
   \<and> analysis_reply garbled_world Map.empty ''PROGRAM-ID. PAYROLL.'' = Inr ''I cannot help with that.''
   \<and> json_loads garbled_world (reply_payload ''I cannot help with that.'') = None
   \<and> analyze_cobol_structure garbled_world Map.empty ''PROGRAM-ID. PAYROLL.'' None
       = Inr (PDict (basic_structure ''PROGRAM-ID. PAYROLL.''))
   \<and> provider_registered timeout_world Map.empty
   \<and> analysis_reply timeout_world Map.empty ''PROGRAM-ID. PAYROLL.'' = Inl (ProviderError ''timeout'')
   \<and> analyze_cobol_structure timeout_world Map.empty ''PROGRAM-ID. PAYROLL.'' None
       = Inl (ProviderError ''timeout'')"
proof -
  have a: "\<not> provider_registered quiet_world Map.empty" "\<not> has_api_key quiet_world"
    "provider_registered garbled_world Map.empty"
    "analysis_reply garbled_world Map.empty ''PROGRAM-ID. PAYROLL.'' = Inr ''I cannot help with that.''"
    "json_loads garbled_world (reply_payload ''I cannot help with that.'') = None"
    "provider_registered timeout_world Map.empty"
    "analysis_reply timeout_world Map.empty ''PROGRAM-ID. PAYROLL.'' = Inl (ProviderError ''timeout'')"
    by code_simp+
  show ?thesis
    using a
      analysis_failure_paths [of quiet_world Map.empty "''PROGRAM-ID. PAYROLL.''"]
      analysis_failure_paths [of garbled_world Map.empty "''PROGRAM-ID. PAYROLL.''" "''I cannot help with that.''"]
      analysis_failure_paths [of timeout_world Map.empty "''PROGRAM-ID. PAYROLL.''" _ "ProviderError ''timeout''"]
    by blast
qed

text \<open>
  C2 as stated fails: a registered provider that raises makes
  \<^verbatim>\<open>analyze_cobol_structure\<close> raise the same error, not return an analysis.
\<close>
theorem analysis_raises_on_provider_error:
  "analyze_cobol_structure timeout_world Map.empty ''PROGRAM-ID. PAYROLL.'' None
     = Inl (ProviderError ''timeout'')"
  by code_simp


text \<open>
  C4, as the code has it. On the path without provider and key and on the path where the
  payload does not parse, the analysis has the field \<^verbatim>\<open>program_id\<close>, holding the
  result of \<^verbatim>\<open>_extract_program_id\<close>, which is never empty and is either the
  literal \<^verbatim>\<open>Unknown\<close> or an identifier standing after a PROGRAM-ID marker of the
  source. Where the payload parses to an object, that object is returned as it is, whatever
  fields it has.
\<close>
theorem analysis_program_id:
  "(\<not> provider_registered w prefs \<and> \<not> has_api_key w \<longrightarrow>
      (\<exists>sd. analyze_cobol_structure w prefs code None = Inr (PDict sd)
         \<and> map_of sd ''program_id'' = Some (PStr (extract_program_id code))))
   \<and> (provider_registered w prefs \<and> analysis_reply w prefs code = Inr result
        \<and> json_loads w (reply_payload result) = None \<longrightarrow>
      (\<exists>sd. analyze_cobol_structure w prefs code None = Inr (PDict sd)
         \<and> map_of sd ''program_id'' = Some (PStr (extract_program_id code))))
   \<and> extract_program_id code \<noteq> []
   \<and> (extract_program_id code = ''Unknown'' \<or> program_id_occurs code (extract_program_id code))
   \<and> (provider_registered w prefs \<and> analysis_reply w prefs code = Inr result
        \<and> json_loads w (reply_payload result) = Some (PDict d) \<and> sized_fields d \<longrightarrow>
      analyze_cobol_structure w prefs code None = Inr (PDict d))"
proof -
  obtain q where q: "evaluate_analysis_quality (basic_structure code) = Inr q"
    using quality_basic_structure by blast
  have p1: "\<not> provider_registered w prefs \<and> \<not> has_api_key w \<longrightarrow>
      analyze_cobol_structure w prefs code None = Inr (PDict (no_api_key_analysis code))"
    unfolding analyze_unfold by simp
  have p2: "provider_registered w prefs \<and> analysis_reply w prefs code = Inr result
        \<and> json_loads w (reply_payload result) = None \<longrightarrow>
      analyze_cobol_structure w prefs code None = Inr (PDict (basic_structure code))"
    unfolding analyze_unfold by (simp add: bind_err_def parse_reply_def q)
  have p3: "provider_registered w prefs \<and> analysis_reply w prefs code = Inr result
        \<and> json_loads w (reply_payload result) = Some (PDict d) \<and> sized_fields d \<longrightarrow>
      analyze_cobol_structure w prefs code None = Inr (PDict d)"
    unfolding analyze_unfold by (simp add: bind_err_def parse_reply_def analysis_quality_rubric)
  have f: "map_of (no_api_key_analysis code) ''program_id'' = Some (PStr (extract_program_id code))"
    "map_of (basic_structure code) ''program_id'' = Some (PStr (extract_program_id code))"
    by (simp_all add: no_api_key_analysis_def basic_structure_def)
  from p1 p2 p3 f extract_program_id_nonempty [of code] show ?thesis by blast
qed

text \<open>
  The paths of the program identifier at concrete worlds.
\<close>
theorem analysis_program_id_witness:
  "provider_registered quiet_world Map.empty = False \<and> has_api_key quiet_world = False
   \<and> analyze_cobol_structure quiet_world Map.empty ''PROGRAM-ID. PAYROLL.'' None
       = Inr (PDict (no_api_key_analysis ''PROGRAM-ID. PAYROLL.''))
   \<and> map_of (no_api_key_analysis ''PROGRAM-ID. PAYROLL.'') ''program_id'' = Some (PStr ''PAYROLL'')
   \<and> provider_registered garbled_world Map.empty
   \<and> analysis_reply garbled_world Map.empty ''no marker here'' = Inr ''I cannot help with that.''
   \<and> json_loads garbled_world (reply_payload ''I cannot help with that.'') = None
   \<and> analyze_cobol_structure garbled_world Map.empty ''no marker here'' None
       = Inr (PDict (basic_structure ''no marker here''))
   \<and> map_of (basic_structure ''no marker here'') ''program_id'' = Some (PStr ''Unknown'')
   \<and> provider_registered empty_object_world Map.empty
   \<and> analysis_reply empty_object_world Map.empty ''PROGRAM-ID. PAYROLL.'' = Inr ''{}''
   \<and> json_loads empty_object_world (reply_payload ''{}'') = Some (PDict [])
   \<and> sized_fields []
   \<and> analyze_cobol_structure empty_object_world Map.empty ''PROGRAM-ID. PAYROLL.'' None
       = Inr (PDict [])"
proof -
  have a: "\<not> provider_registered quiet_world Map.empty" "\<not> has_api_key quiet_world"
    "provider_registered garbled_world Map.empty"
    "analysis_reply garbled_world Map.empty ''no marker here'' = Inr ''I cannot help with that.''"
    "json_loads garbled_world (reply_payload ''I cannot help with that.'') = None"
    "provider_registered empty_object_world Map.empty"
    "analysis_reply empty_object_world Map.empty ''PROGRAM-ID. PAYROLL.'' = Inr ''{}''"
    "json_loads empty_object_world (reply_payload ''{}'') = Some (PDict [])"
    "sized_fields []"
    by code_simp+
  have b: "extract_program_id ''PROGRAM-ID. PAYROLL.'' = ''PAYROLL''"
    "extract_program_id ''no marker here'' = ''Unknown''"
    by code_simp+
  have r1: "analyze_cobol_structure quiet_world Map.empty ''PROGRAM-ID. PAYROLL.'' None
       = Inr (PDict (no_api_key_analysis ''PROGRAM-ID. PAYROLL.''))"
    using a(1,2) by (simp add: analyze_unfold)
  have r2: "analyze_cobol_structure garbled_world Map.empty ''no marker here'' None
       = Inr (PDict (basic_structure ''no marker here''))"
    using a(3,4,5) quality_basic_structure [of "''no marker here''"]
    by (auto simp: analyze_unfold bind_err_def parse_reply_def)
  have r3: "analyze_cobol_structure empty_object_world Map.empty ''PROGRAM-ID. PAYROLL.'' None
       = Inr (PDict [])"
    using a(6-9) analysis_program_id [of empty_object_world Map.empty "''PROGRAM-ID. PAYROLL.''" "''{}''" "[]"]
    by blast
  have f: "map_of (no_api_key_analysis ''PROGRAM-ID. PAYROLL.'') ''program_id'' = Some (PStr ''PAYROLL'')"
    "map_of (basic_structure ''no marker here'') ''program_id'' = Some (PStr ''Unknown'')"
    using analysis_program_id [of quiet_world Map.empty "''PROGRAM-ID. PAYROLL.''"]
      analysis_program_id [of garbled_world Map.empty "''no marker here''" "''I cannot help with that.''"]
      a r1 r2 unfolding b by auto
  show ?thesis using a r1 r2 r3 f by simp
qed

text \<open>
  C4 as stated fails on the path where the payload parses: a provider answering the empty
  JSON object makes the analysis the empty object, with no \<^verbatim>\<open>program_id\<close>.
\<close>
theorem analysis_returns_payload_without_program_id:
  "analyze_cobol_structure empty_object_world Map.empty ''PROGRAM-ID. PAYROLL.'' None
     = Inr (PDict [])
   \<and> has_key [] ''program_id'' = False"
proof -
  have "analyze_cobol_structure empty_object_world Map.empty ''PROGRAM-ID. PAYROLL.'' None
     = Inr (PDict [])"
    by code_simp
  then show ?thesis by (simp add: has_key_def)
qed


section \<open>Diagram validation and enhancement: what is accepted\<close>

lemma correction_loop_two_rounds:
  "correction_loop w True 0 e =
     (case re_sub False mermaid_pattern (check_and_fix_diagram w) e False of
        (e1, i1) \<Rightarrow>
          if i1 then fst (re_sub False mermaid_pattern (check_and_fix_diagram w) e1 False)
          else e1)"
proof -
  have stop: "correction_loop w b (Suc (Suc 0)) x = x" for b x
    by (subst correction_loop.simps) (simp add: max_attempts_def)
  have halt: "correction_loop w False n x = x" for n x
    by (subst correction_loop.simps) simp
  have second: "correction_loop w True (Suc 0) x
      = fst (re_sub False mermaid_pattern (check_and_fix_diagram w) x False)" for x
    by (subst correction_loop.simps) (simp add: max_attempts_def stop split: prod.split)
  show ?thesis
    by (subst correction_loop.simps)
       (auto simp: max_attempts_def second halt split: prod.split)
qed

text \<open>
  C3, as the code has it. When the enhancement call answers with a non-empty text, the text
  that has gone through the correction loop is taken exactly when it holds at least one
  diagram marker, and the documentation is kept otherwise; so a result that differs from
  the documentation holds a marker, and a documentation that held a marker still holds
  one afterwards. The correction loop runs the substitution once, and a second and last
  time when the first round found something to repair.
\<close>
theorem enhancement_acceptance:
  "(truthy (get_user_preference prefs ''enhanced_diagrams'' (PBool True))
      \<and> truthy (get_user_preference prefs ''llm_provider'' (PStr ''groq''))
      \<and> generate_with_groq w (EnhancePrompt doc) llm_model = Inr e \<and> e \<noteq> []
      \<longrightarrow> enhancement_pass w prefs doc =
            (if 0 < str_count mermaid_marker (correction_loop w True 0 e)
             then correction_loop w True 0 e else doc))
   \<and> (enhancement_pass w prefs doc \<noteq> doc
        \<longrightarrow> 0 < str_count mermaid_marker (enhancement_pass w prefs doc))
   \<and> (0 < str_count mermaid_marker doc
        \<longrightarrow> 0 < str_count mermaid_marker (enhancement_pass w prefs doc))
   \<and> correction_loop w True 0 e =
       (case re_sub False mermaid_pattern (check_and_fix_diagram w) e False of
          (e1, i1) \<Rightarrow>
            if i1 then fst (re_sub False mermaid_pattern (check_and_fix_diagram w) e1 False)
            else e1)"
proof -
  have a: "truthy (get_user_preference prefs ''enhanced_diagrams'' (PBool True))
      \<and> truthy (get_user_preference prefs ''llm_provider'' (PStr ''groq''))
      \<and> generate_with_groq w (EnhancePrompt doc) llm_model = Inr e \<and> e \<noteq> []
      \<longrightarrow> enhancement_pass w prefs doc =
            (if 0 < str_count mermaid_marker (correction_loop w True 0 e)
             then correction_loop w True 0 e else doc)"
    by (simp add: enhancement_pass_def Let_def)
  have b: "enhancement_pass w prefs doc \<noteq> doc
        \<longrightarrow> 0 < str_count mermaid_marker (enhancement_pass w prefs doc)"
    by (auto simp: enhancement_pass_def Let_def split: sum.splits if_splits)
  have c: "0 < str_count mermaid_marker doc
        \<longrightarrow> 0 < str_count mermaid_marker (enhancement_pass w prefs doc)"
    using b by (cases "enhancement_pass w prefs doc = doc") simp_all
  show ?thesis using a b c correction_loop_two_rounds [of w e] by blast
qed

text \<open>
  An enhancement that brings the first diagram to a documentation without any.
\<close>
theorem enhancement_acceptance_witness:
  "truthy (get_user_preference Map.empty ''enhanced_diagrams'' (PBool True))
   \<and> truthy (get_user_preference Map.empty ''llm_provider'' (PStr ''groq''))
   \<and> generate_with_groq fewer_diagrams_world (EnhancePrompt ''# Payroll'') llm_model
       = Inr ''```mermaid\<newline>A\<newline>```''
   \<and> correction_loop fewer_diagrams_world True 0 ''```mermaid\<newline>A\<newline>```''
       = ''```mermaid\<newline>A\<newline>```''
   \<and> str_count mermaid_marker ''```mermaid\<newline>A\<newline>```'' = 1
   \<and> enhancement_pass fewer_diagrams_world Map.empty ''# Payroll''
       = ''```mermaid\<newline>A\<newline>```''"
proof -
  have a: "truthy (get_user_preference Map.empty ''enhanced_diagrams'' (PBool True))"
    "truthy (get_user_preference Map.empty ''llm_provider'' (PStr ''groq''))"
    "generate_with_groq fewer_diagrams_world (EnhancePrompt ''# Payroll'') llm_model
       = Inr ''```mermaid\<newline>A\<newline>```''"
    by code_simp+
  have s: "re_sub False mermaid_pattern (check_and_fix_diagram fewer_diagrams_world)
             ''```mermaid\<newline>A\<newline>```'' False = (''```mermaid\<newline>A\<newline>```'', False)"
    by code_simp
  have n: "str_count mermaid_marker ''```mermaid\<newline>A\<newline>```'' = 1"
    by code_simp
  have l: "correction_loop fewer_diagrams_world True 0 ''```mermaid\<newline>A\<newline>```''
       = ''```mermaid\<newline>A\<newline>```''"
    using enhancement_acceptance [of Map.empty fewer_diagrams_world "''# Payroll''"
        "''```mermaid\<newline>A\<newline>```''"]
    unfolding s by simp
  have r: "enhancement_pass fewer_diagrams_world Map.empty ''# Payroll''
       = ''```mermaid\<newline>A\<newline>```''"
    using enhancement_acceptance [of Map.empty fewer_diagrams_world "''# Payroll''"
        "''```mermaid\<newline>A\<newline>```''"] a
    unfolding l n by simp
  show ?thesis using a l n r by simp
qed

text \<open>
  C3 as stated fails: a documentation of two diagrams whose enhancement holds one is
  replaced by the enhancement, and the count falls from two to one.
\<close>
theorem enhancement_accepts_fewer_diagrams:
  "enhancement_pass fewer_diagrams_world Map.empty
      ''```mermaid\<newline>A\<newline>```\<newline>```mermaid\<newline>B\<newline>```''
     = ''```mermaid\<newline>A\<newline>```''
   \<and> enhance_with_diagrams fewer_diagrams_world Map.empty
      ''```mermaid\<newline>A\<newline>```\<newline>```mermaid\<newline>B\<newline>```'' []
     = ''```mermaid\<newline>A\<newline>```''
   \<and> str_count mermaid_marker ''```mermaid\<newline>A\<newline>```\<newline>```mermaid\<newline>B\<newline>```'' = 2
   \<and> str_count mermaid_marker ''```mermaid\<newline>A\<newline>```'' = 1"
  by code_simp


subsection \<open>Empty diagram blocks\<close>

lemma str_contains_sublist: "str_contains sub s \<longleftrightarrow> sublist sub s"
  by (induction s) (simp_all add: sublist_Cons_right)

lemma is_space_backtick [simp]: "\<not> is_space CHR ''`''"
  by (simp add: is_space_def)













lemma rmatch_suffix:
  "(e, r', g') \<in> set (rmatch ic re (p, r, g)) \<Longrightarrow> suffix r' r"
proof (induction re arbitrary: p r g e r' g')
  case Eps
  then show ?case by simp
next
  case (Chr c)
  then show ?case unfolding in_rmatch_Chr by (auto simp: suffix_Cons)
next
  case (Rep cl mn gr)
  then show ?case unfolding in_rmatch_Rep by (auto simp: suffix_drop)
next
  case (Seq a b)
  from Seq.prems obtain p1 r1 g1 where
    "(p1, r1, g1) \<in> set (rmatch ic a (p, r, g))" "(e, r', g') \<in> set (rmatch ic b (p1, r1, g1))"
    unfolding in_rmatch_Seq by blast
  from Seq.IH(1) [OF this(1)] Seq.IH(2) [OF this(2)] show ?case
    by (rule suffix_order.trans [rotated])
next
  case (Alt a b)
  then show ?case by auto
next
  case (Grp n a)
  then show ?case unfolding in_rmatch_Grp by blast
next
  case (Opt a)
  then show ?case by auto
next
  case Bol
  then show ?case by (simp split: if_splits)
next
  case Eol
  then show ?case by (simp split: if_splits)
qed



lemma sublist_fence:
  assumes "sublist (fence code) text"
  shows "fenced_diagram_in text code" "str_contains mermaid_marker text"
proof -
  from assms obtain a b where t: "text = a @ fence code @ b" unfolding sublist_def by blast
  have "text = a @ ''```mermaid'' @ [CHR 0x0A] @ code @ [CHR 0x0A] @ ''```'' @ b
        \<and> (\<forall>c\<in>set [CHR 0x0A]. is_space c) \<and> (\<forall>c\<in>set [CHR 0x0A]. is_space c)"
    by (simp add: t fence_def is_space_def)
  then show "fenced_diagram_in text code" unfolding fenced_diagram_in_def by blast
  have "text = a @ mermaid_marker @ ([CHR 0x0A] @ code @ [CHR 0x0A] @ ''```'' @ b)"
    by (simp add: t fence_def mermaid_marker_def)
  then show "str_contains mermaid_marker text" unfolding str_contains_sublist sublist_def by blast
qed





section \<open>Documentation generation: the diagram marker\<close>

lemma str_count_pos: "0 < str_count sub s \<Longrightarrow> sublist sub s"
proof (induction sub s rule: str_count.induct)
  case (1 sub s)
  show ?case
  proof (cases "sub = [] \<or> s = []")
    case True
    with "1.prems" show ?thesis by (subst (asm) str_count.simps) simp
  next
    case False
    show ?thesis
    proof (cases "prefix sub s")
      case True
      then show ?thesis by (rule prefix_imp_sublist)
    next
      case np: False
      with False "1.prems" have "0 < str_count sub (tl s)"
        by (subst (asm) str_count.simps) simp
      from "1.IH"(2) [OF False np this] have "sublist sub (tl s)" .
      moreover from False obtain c cs where "s = c # cs" by (cases s) auto
      ultimately show ?thesis by (simp add: sublist_Cons_right)
    qed
  qed
qed

lemma sublist_dropWhile:
  assumes "m \<noteq> []" "\<forall>c\<in>set m. \<not> P c" "sublist m s"
  shows "sublist m (dropWhile P s)"
  using assms(3)
proof (induction s)
  case Nil
  then show ?case by simp
next
  case (Cons x xs)
  show ?case
  proof (cases "P x")
    case False
    with Cons.prems show ?thesis by simp
  next
    case True
    have "\<not> prefix m (x # xs)"
    proof
      assume "prefix m (x # xs)"
      with assms(1) have "x \<in> set m" by (cases m) auto
      with assms(2) True show False by blast
    qed
    with Cons.prems have "sublist m xs" by (simp add: sublist_Cons_right)
    from Cons.IH [OF this] True show ?thesis by simp
  qed
qed

lemma sublist_py_strip:
  assumes "m \<noteq> []" "\<forall>c\<in>set m. \<not> is_space c" "sublist m s"
  shows "sublist m (py_strip s)"
proof -
  from sublist_dropWhile [OF assms] have "sublist (rev m) (rev (dropWhile is_space s))"
    by simp
  moreover have "rev m \<noteq> []" "\<forall>c\<in>set (rev m). \<not> is_space c" using assms by simp_all
  ultimately have "sublist (rev m) (dropWhile is_space (rev (dropWhile is_space s)))"
    by (rule sublist_dropWhile [rotated 2])
  then show ?thesis unfolding py_strip_def by (simp add: sublist_rev_left)
qed

lemma sublist_split:
  assumes "\<forall>c\<in>set m. \<not> is_space c" "sublist m (a @ b)"
    and "a = [] \<or> (\<exists>t. b = CHR 0x0A # t)"
  shows "sublist m a \<or> sublist m b"
proof -
  from assms(2) consider "sublist m a" | "sublist m b"
    | xs1 xs2 where "m = xs1 @ xs2" "suffix xs1 a" "prefix xs2 b"
    unfolding sublist_append by blast
  then show ?thesis
  proof cases
    case 3
    from assms(3) show ?thesis
    proof
      assume "a = []"
      with 3 show ?thesis by simp
    next
      assume "\<exists>t. b = CHR 0x0A # t"
      then obtain t where b: "b = CHR 0x0A # t" by blast
      have "xs2 = []"
      proof (rule ccontr)
        assume "xs2 \<noteq> []"
        with 3(3) b have "CHR 0x0A \<in> set xs2" by (cases xs2) auto
        moreover have "is_space CHR 0x0A" by (simp add: is_space_def)
        ultimately show False using 3(1) assms(1) by auto
      qed
      with 3 show ?thesis by auto
    qed
  qed auto
qed

lemma marker_plain: "mermaid_marker \<noteq> []" "\<forall>c\<in>set mermaid_marker. \<not> is_space c"
  by (simp_all add: mermaid_marker_def is_space_def)

lemma separate_keeps_marker:
  assumes "str_contains mermaid_marker doc"
  shows "str_contains mermaid_marker (separate_thinking_process doc)"
proof (cases "split_heading doc")
  case None
  with assms show ?thesis by (simp add: separate_by_split)
next
  case (Some p)
  from split_heading_Some [OF Some] have h: "top_heading_at doc p" by simp
  have "p = 0 \<or> (\<exists>t. drop p doc = CHR 0x0A # t)"
    using h by (auto simp: top_heading_at_def split: list.splits)
  then have "take p doc = [] \<or> (\<exists>t. drop p doc = CHR 0x0A # t)" by auto
  moreover have "sublist mermaid_marker (take p doc @ drop p doc)"
    using assms by (simp add: str_contains_sublist)
  ultimately have "sublist mermaid_marker (take p doc) \<or> sublist mermaid_marker (drop p doc)"
    using sublist_split [OF marker_plain(2)] by blast
  then have d: "sublist mermaid_marker (py_strip (take p doc))
      \<or> sublist mermaid_marker (py_strip (drop p doc))"
    using sublist_py_strip [OF marker_plain] by blast
  show ?thesis
  proof (cases "py_strip (take p doc) = []")
    case True
    with d have "sublist mermaid_marker (py_strip (drop p doc))"
      by (auto simp: mermaid_marker_def)
    with True Some show ?thesis by (simp add: separate_by_split str_contains_sublist)
  next
    case False
    from d have "sublist mermaid_marker
       (py_strip (drop p doc) @ ''\<newline>\<newline># Thinking Process\<newline>\<newline>'' @ py_strip (take p doc))"
      unfolding sublist_append [of _ "py_strip (drop p doc)"] sublist_append [of _ "''\<newline>\<newline># Thinking Process\<newline>\<newline>''"]
      by blast
    with False Some show ?thesis by (simp add: separate_by_split str_contains_sublist)
  qed
qed


lemma sub_from_cases:
  assumes f: "\<forall>g st. sublist X (fst (f g st))"
  shows "sub_from ic re f p s st = (s, st) \<or> sublist X (fst (sub_from ic re f p s st))"
proof (induction s arbitrary: p)
  case Nil
  show ?case
  proof (cases "rmatch ic re (p, [], Map.empty)")
    case Nil
    then show ?thesis by (subst sub_from.simps) simp
  next
    case (Cons x xs)
    obtain e r' g where "x = (e, r', g)" by (cases x)
    with Cons have "sub_from ic re f p [] st = f g st"
      by (subst sub_from.simps) simp
    with f show ?thesis by simp
  qed
next
  case (Cons c cs)
  show ?case
  proof (cases "rmatch ic re (p, c # cs, Map.empty)")
    case Nil
    then have r: "sub_from ic re f p (c # cs) st = apfst ((#) c) (sub_from ic re f (Suc p) cs st)"
      by (subst sub_from.simps) simp
    from Cons.IH [of "Suc p"] show ?thesis
    proof
      assume "sub_from ic re f (Suc p) cs st = (cs, st)"
      with r show ?thesis by simp
    next
      assume "sublist X (fst (sub_from ic re f (Suc p) cs st))"
      then have "sublist X (c # fst (sub_from ic re f (Suc p) cs st))"
        by (simp add: sublist_Cons_right)
      with r show ?thesis by simp
    qed
  next
    case m: (Cons x xs)
    obtain e r' g where "x = (e, r', g)" by (cases x)
    with m have "\<exists>rest. fst (sub_from ic re f p (c # cs) st) = fst (f g st) @ rest"
      by (subst sub_from.simps) simp
    then obtain rest where "fst (sub_from ic re f p (c # cs) st) = fst (f g st) @ rest" by blast
    moreover have "sublist X (fst (f g st) @ rest)"
      using f sublist_append [of X "fst (f g st)" rest] by blast
    ultimately show ?thesis by simp
  qed
qed

lemma sublist_marker_fence: "sublist mermaid_marker (fence code)"
proof -
  have "fence code = [] @ mermaid_marker @ ([CHR 0x0A] @ code @ ''\<newline>```'')"
    by (simp add: fence_def mermaid_marker_def)
  then show ?thesis unfolding sublist_def by blast
qed

lemma validate_diagram_fence: "\<exists>code. fst (validate_diagram w g st) = fence code"
  by (auto simp: validate_diagram_def Let_def split: prod.split)

lemma basic_flowchart_marker: "\<exists>rest. basic_flowchart = mermaid_marker @ rest"
  by (simp add: basic_flowchart_def mermaid_marker_def)

lemma sublist_inside: "sublist m b \<Longrightarrow> sublist m (a @ x @ b @ y)"
  by (simp add: sublist_append)

lemma fallback_marker:
  "str_contains mermaid_marker (add_fallback_diagram (validate_existing w d))"
proof (cases "str_contains mermaid_marker d")
  case False
  have "sublist mermaid_marker basic_flowchart"
    using basic_flowchart_marker unfolding sublist_def by (metis append_Nil)
  then have "sublist mermaid_marker
      (d @ ''\<newline>\<newline>## Program Flow Diagram\<newline>\<newline>'' @ basic_flowchart @ ''\<newline>'')"
    by (rule sublist_inside)
  with False show ?thesis
    by (simp add: validate_existing_def add_fallback_diagram_def str_contains_sublist)
next
  case True
  have "\<forall>g st. sublist mermaid_marker (fst (validate_diagram w g st))"
    using validate_diagram_fence [of w] sublist_marker_fence by metis
  from sub_from_cases [OF this, of False mermaid_pattern 0 d False]
  show ?thesis
  proof
    assume "sub_from False mermaid_pattern (validate_diagram w) 0 d False = (d, False)"
    with True show ?thesis
      by (simp add: validate_existing_def add_fallback_diagram_def re_sub_def)
  next
    assume "sublist mermaid_marker (fst (sub_from False mermaid_pattern (validate_diagram w) 0 d False))"
    then have "add_fallback_diagram (sub_from False mermaid_pattern (validate_diagram w) 0 d False)
        = fst (sub_from False mermaid_pattern (validate_diagram w) 0 d False)"
      by (cases "sub_from False mermaid_pattern (validate_diagram w) 0 d False")
         (simp add: add_fallback_diagram_def str_contains_sublist)
    with True \<open>sublist mermaid_marker (fst (sub_from False mermaid_pattern (validate_diagram w) 0 d False))\<close>
    show ?thesis
      by (simp add: validate_existing_def re_sub_def str_contains_sublist)
  qed
qed

lemma pass_marker:
  assumes "str_contains mermaid_marker d"
  shows "str_contains mermaid_marker (enhancement_pass w prefs d)"
proof (cases "enhancement_pass w prefs d = d")
  case True
  with assms show ?thesis by simp
next
  case False
  then have "0 < str_count mermaid_marker (enhancement_pass w prefs d)"
    by (auto simp: enhancement_pass_def Let_def split: sum.splits if_splits)
  from str_count_pos [OF this] show ?thesis by (simp add: str_contains_sublist)
qed

lemma enhance_marker:
  "str_contains mermaid_marker (enhance_with_diagrams w prefs d sd)"
  unfolding enhance_with_diagrams_def by (rule pass_marker) (rule fallback_marker)

lemma mcp_marker:
  "str_contains mermaid_marker d \<Longrightarrow> str_contains mermaid_marker (add_mcp_explanations w d sd)"
  by (auto simp: add_mcp_explanations_def str_contains_sublist sublist_append split: sum.split)

lemma post_process_marker:
  assumes "tabs_keep_marker w"
  shows "str_contains mermaid_marker (post_process w prefs sd d)"
proof -
  define d1 where "d1 = (if \<not> str_contains mermaid_marker d
                \<or> truthy (get_user_preference prefs ''enhanced_diagrams'' (PBool False))
             then enhance_with_diagrams w prefs d sd else d)"
  define d2 where "d2 = (if get_user_preference prefs ''audience'' (PStr ''technical'') \<noteq> PStr ''technical''
                 \<and> has_key sd ''construct_explanations''
             then add_mcp_explanations w d1 sd else d1)"
  define d3 where "d3 = separate_thinking_process d2"
  have p: "post_process w prefs sd d =
      (case enhance_markdown_with_tabs w d3 of Inr tabbed \<Rightarrow> tabbed | Inl e \<Rightarrow> d3)"
    by (simp only: post_process_def Let_def d1_def d2_def d3_def)
  have "str_contains mermaid_marker d1"
    unfolding d1_def using enhance_marker by auto
  then have "str_contains mermaid_marker d2"
    unfolding d2_def using mcp_marker by auto
  then have "str_contains mermaid_marker d3"
    unfolding d3_def by (rule separate_keeps_marker)
  then show ?thesis
    unfolding p using assms by (auto simp: tabs_keep_marker_def split: sum.split)
qed

lemma generate_documentation_post:
  "generate_documentation w prefs sd = Inr doc \<Longrightarrow> \<exists>sd' d. doc = post_process w prefs sd' d"
  by (auto simp: generate_documentation_def bind_err_def Let_def split: pyval.splits sum.splits)


lemma error_document_diagram:
  "fenced_diagram_in no_api_key_document
     ''flowchart TD\<newline>    Error[Error: No API Keys] --> Action[Please configure API keys]''"
proof (rule sublist_fence(1))
  have "no_api_key_document =
      ''\<newline># COBOL Program Documentation\<newline>\<newline>## Error: API Key Missing\<newline>\<newline>Documentation generation failed because no Groq API key is available.\<newline>\<newline>Please configure a GROQ_API_KEY in your environment settings.\<newline>\<newline>''
      @ fence ''flowchart TD\<newline>    Error[Error: No API Keys] --> Action[Please configure API keys]''
      @ ''\<newline>''"
    by (simp add: no_api_key_document_def fence_def)
  then show "sublist (fence ''flowchart TD\<newline>    Error[Error: No API Keys] --> Action[Please configure API keys]'')
      no_api_key_document"
    unfolding sublist_def by blast
qed

lemma basic_flowchart_diagram:
  "fenced_diagram_in basic_flowchart
     ''flowchart TD\<newline>    Start([Start Program]) --> Init[Initialize Variables]\<newline>    Init --> Process[Process Data]\<newline>    Process --> Decision{Decision Point}\<newline>    Decision -->|Yes| Success[Success Path]\<newline>    Decision -->|No| Failure[Failure Path]\<newline>    Success --> End([End Program])\<newline>    Failure --> End''"
proof (rule sublist_fence(1))
  have "basic_flowchart = [] @
      fence ''flowchart TD\<newline>    Start([Start Program]) --> Init[Initialize Variables]\<newline>    Init --> Process[Process Data]\<newline>    Process --> Decision{Decision Point}\<newline>    Decision -->|Yes| Success[Success Path]\<newline>    Decision -->|No| Failure[Failure Path]\<newline>    Success --> End([End Program])\<newline>    Failure --> End''
      @ []"
    by (simp add: basic_flowchart_def fence_def)
  then show "sublist (fence ''flowchart TD\<newline>    Start([Start Program]) --> Init[Initialize Variables]\<newline>    Init --> Process[Process Data]\<newline>    Process --> Decision{Decision Point}\<newline>    Decision -->|Yes| Success[Success Path]\<newline>    Decision -->|No| Failure[Failure Path]\<newline>    Success --> End([End Program])\<newline>    Failure --> End'')
      basic_flowchart"
    unfolding sublist_def by blast
qed

text \<open>
  C1, as the code has it. Every documentation that is returned holds the diagram marker,
  provided the tabbed-view transform keeps it. A text that already holds the marker, with
  the preference \<^verbatim>\<open>enhanced_diagrams\<close> not set, goes on as it was generated, without
  any validation of its diagrams (shown here for the technical audience, where nothing is
  appended either). A text without the marker gets the default flowchart appended by the
  validation step; that flowchart and the diagram of the document for a missing API key
  are fenced diagram blocks.
\<close>
theorem documentation_holds_marker:
  "(generate_documentation w prefs sd = Inr doc \<and> tabs_keep_marker w
      \<longrightarrow> str_contains mermaid_marker doc)
   \<and> (str_contains mermaid_marker d
        \<and> \<not> truthy (get_user_preference prefs ''enhanced_diagrams'' (PBool False))
        \<and> get_user_preference prefs ''audience'' (PStr ''technical'') = PStr ''technical''
      \<longrightarrow> post_process w prefs sd' d =
            (case enhance_markdown_with_tabs w (separate_thinking_process d) of
               Inr tabbed \<Rightarrow> tabbed | Inl e \<Rightarrow> separate_thinking_process d))
   \<and> (\<not> str_contains mermaid_marker d
      \<longrightarrow> add_fallback_diagram (validate_existing w d)
            = d @ ''\<newline>\<newline>## Program Flow Diagram\<newline>\<newline>'' @ basic_flowchart @ ''\<newline>'')
   \<and> contains_fenced_diagram basic_flowchart
   \<and> contains_fenced_diagram no_api_key_document"
proof -
  have a: "generate_documentation w prefs sd = Inr doc \<and> tabs_keep_marker w
      \<longrightarrow> str_contains mermaid_marker doc"
    using generate_documentation_post [of w prefs sd doc] post_process_marker [of w prefs]
    by blast
  have b: "str_contains mermaid_marker d
        \<and> \<not> truthy (get_user_preference prefs ''enhanced_diagrams'' (PBool False))
        \<and> get_user_preference prefs ''audience'' (PStr ''technical'') = PStr ''technical''
      \<longrightarrow> post_process w prefs sd' d =
            (case enhance_markdown_with_tabs w (separate_thinking_process d) of
               Inr tabbed \<Rightarrow> tabbed | Inl e \<Rightarrow> separate_thinking_process d)"
    by (simp add: post_process_def Let_def)
  have c: "\<not> str_contains mermaid_marker d
      \<longrightarrow> add_fallback_diagram (validate_existing w d)
            = d @ ''\<newline>\<newline>## Program Flow Diagram\<newline>\<newline>'' @ basic_flowchart @ ''\<newline>''"
    by (simp add: validate_existing_def add_fallback_diagram_def)
  have e: "contains_fenced_diagram basic_flowchart" "contains_fenced_diagram no_api_key_document"
    unfolding contains_fenced_diagram_def
    using basic_flowchart_diagram error_document_diagram by blast+
  from a b c e show ?thesis by blast
qed

text \<open>
  The document for a missing API key, a text that is an opening fence only, and a text
  without any diagram.
\<close>
theorem documentation_holds_marker_witness:
  "generate_documentation quiet_world Map.empty (PDict []) = Inr (py_strip no_api_key_document)
   \<and> tabs_keep_marker quiet_world
   \<and> str_contains mermaid_marker (py_strip no_api_key_document)
   \<and> str_contains mermaid_marker ''```mermaid''
   \<and> truthy (get_user_preference Map.empty ''enhanced_diagrams'' (PBool False)) = False
   \<and> get_user_preference Map.empty ''audience'' (PStr ''technical'') = PStr ''technical''
   \<and> post_process quiet_world Map.empty [] ''```mermaid'' = ''```mermaid''
   \<and> str_contains mermaid_marker ''# Payroll'' = False
   \<and> add_fallback_diagram (validate_existing quiet_world ''# Payroll'')
       = ''# Payroll\<newline>\<newline>## Program Flow Diagram\<newline>\<newline>'' @ basic_flowchart @ ''\<newline>''"
proof -
  have g: "generate_documentation quiet_world Map.empty (PDict []) = Inr (py_strip no_api_key_document)"
    by code_simp
  have t: "tabs_keep_marker quiet_world"
    by (simp add: tabs_keep_marker_def quiet_world_def)
  have h: "str_contains mermaid_marker ''```mermaid''"
    "\<not> truthy (get_user_preference Map.empty ''enhanced_diagrams'' (PBool False))"
    "get_user_preference Map.empty ''audience'' (PStr ''technical'') = PStr ''technical''"
    "\<not> str_contains mermaid_marker ''# Payroll''"
    by code_simp+
  have s: "separate_thinking_process ''```mermaid'' = ''```mermaid''"
    "enhance_markdown_with_tabs quiet_world ''```mermaid'' = Inr ''```mermaid''"
    by code_simp+
  have r1: "str_contains mermaid_marker (py_strip no_api_key_document)"
    using documentation_holds_marker [of quiet_world Map.empty "PDict []" "py_strip no_api_key_document"] g t
    by blast
  have r2a: "post_process quiet_world Map.empty [] ''```mermaid'' =
      (case enhance_markdown_with_tabs quiet_world (separate_thinking_process ''```mermaid'') of
         Inr tabbed \<Rightarrow> tabbed | Inl e \<Rightarrow> separate_thinking_process ''```mermaid'')"
    using documentation_holds_marker [of quiet_world Map.empty _ _ "''```mermaid''" "[]"] h
    by blast
  have r2: "post_process quiet_world Map.empty [] ''```mermaid'' = ''```mermaid''"
    unfolding r2a s by simp
  have "add_fallback_diagram (validate_existing quiet_world ''# Payroll'')
       = ''# Payroll'' @ ''\<newline>\<newline>## Program Flow Diagram\<newline>\<newline>'' @ basic_flowchart @ ''\<newline>''"
    using documentation_holds_marker [of quiet_world Map.empty _ _ "''# Payroll''"] h
    by blast
  then have r3: "add_fallback_diagram (validate_existing quiet_world ''# Payroll'')
       = ''# Payroll\<newline>\<newline>## Program Flow Diagram\<newline>\<newline>'' @ basic_flowchart @ ''\<newline>''"
    by simp
  show ?thesis using g t h r1 r2 r3 by blast
qed

text \<open>
  C1 as stated fails on the path that skips validation: a provider answering with an
  opening fence alone has this text returned, and it holds no fenced diagram block at all.
\<close>
theorem documentation_with_open_fence_only:
  "generate_documentation marker_only_world Map.empty (PDict []) = Inr ''```mermaid''
   \<and> contains_fenced_diagram ''```mermaid'' = False"
proof -
  have g: "generate_documentation marker_only_world Map.empty (PDict []) = Inr ''```mermaid''"
    by code_simp
  have "\<not> fenced_diagram_in ''```mermaid'' code" for code
  proof
    assume "fenced_diagram_in ''```mermaid'' code"
    then obtain pre ws1 ws2 post where
      "''```mermaid'' = pre @ ''```mermaid'' @ ws1 @ code @ ws2 @ ''```'' @ post"
      unfolding fenced_diagram_in_def by blast
    then have "length ''```mermaid'' = length (pre @ ''```mermaid'' @ ws1 @ code @ ws2 @ ''```'' @ post)"
      by (rule arg_cong)
    then show False by simp
  qed
  then have "contains_fenced_diagram ''```mermaid'' = False"
    by (simp add: contains_fenced_diagram_def)
  with g show ?thesis by simp
qed


section \<open>The preference store\<close>

text \<open>
  C10. A preference that was set is read back whatever default is supplied; a key that
  was never set reads as the supplied default; setting one key leaves the stored value
  of every other key as it was. Any key is accepted: the store has no list of known
  keys.
\<close>

theorem preference_store_frame:
  "get_user_preference (set_user_preference prefs k v) k d = v
   \<and> (prefs k = None \<longrightarrow> get_user_preference prefs k d = d)
   \<and> (k' \<noteq> k \<longrightarrow> set_user_preference prefs k v k' = prefs k'
               \<and> get_user_preference (set_user_preference prefs k v) k' d
                   = get_user_preference prefs k' d)"
  by (simp add: get_user_preference_def set_user_preference_def)

theorem preference_store_frame_witness:
  "get_user_preference (set_user_preference (Map.empty(''audience'' \<mapsto> PStr ''business''))
       ''detail_level'' (PStr ''high'')) ''detail_level'' PNone = PStr ''high''
   \<and> (Map.empty(''audience'' \<mapsto> PStr ''business'')) ''detail_level'' = None
   \<and> get_user_preference (Map.empty(''audience'' \<mapsto> PStr ''business''))
         ''detail_level'' (PStr ''medium'') = PStr ''medium''
   \<and> ''audience'' \<noteq> ''detail_level''
   \<and> set_user_preference (Map.empty(''audience'' \<mapsto> PStr ''business''))
         ''detail_level'' (PStr ''high'') ''audience'' = Some (PStr ''business'')"
  using preference_store_frame [of "Map.empty(''audience'' \<mapsto> PStr ''business'')"
      "''detail_level''" "PStr ''high''" PNone "''audience''"]
    preference_store_frame [of "Map.empty(''audience'' \<mapsto> PStr ''business'')"
      "''detail_level''" "PStr ''high''" "PStr ''medium''" "''audience''"]
  by simp

end
